theory Spec2Isabelle
  imports Main "HOL-Library.Word" "HOL-Library.Multiset"
begin

unbundle bit_operations_syntax

section \<open>Bytes and JavaScript number arithmetic\<close>

type_synonym u8 = "8 word"

text \<open>
  The decoders compute array indices with JavaScript numbers and mask them with
  \<open>& 0xff\<close>. The operands are sums of at most three bytes, so they are modelled as
  natural numbers.
\<close>

definition and_ff :: "nat \<Rightarrow> nat" where
  "and_ff n = n AND 0xff"

section \<open>Building the key box\<close>

text \<open>
  \<open>scripts/ncmdump.js\<close> lines 38-51 and \<open>src/lib/ncmdump-browser.ts\<close> lines 101-114
  (the two loops are the same text).

  \<open>keyDecrypted[keyOffset]\<close> reads a typed array: out of range it is \<open>undefined\<close>,
  the sum is then \<open>NaN\<close>, and \<open>NaN & 0xff\<close> is \<open>0\<close>.
\<close>

record ksa_state =
  keyBox :: "u8 list"
  lastByte :: nat
  keyOffset :: nat

definition key_at :: "u8 list \<Rightarrow> nat \<Rightarrow> nat option" where
  "key_at keyDecrypted k = (if k < length keyDecrypted then Some (unat (keyDecrypted ! k)) else None)"

definition ksa_step :: "u8 list \<Rightarrow> nat \<Rightarrow> ksa_state \<Rightarrow> ksa_state" where
  "ksa_step keyDecrypted i s =
     (let swap = keyBox s ! i;
          c = (case key_at keyDecrypted (keyOffset s) of
                 Some k \<Rightarrow> and_ff (unat swap + lastByte s + k)
               | None \<Rightarrow> 0);
          keyOffset1 = keyOffset s + 1;
          keyOffset2 = (if keyOffset1 \<ge> length keyDecrypted then 0 else keyOffset1);
          keyBox1 = (keyBox s)[i := keyBox s ! c];
          keyBox2 = keyBox1[c := swap]
      in \<lparr>keyBox = keyBox2, lastByte = c, keyOffset = keyOffset2\<rparr>)"

function ksa_loop :: "u8 list \<Rightarrow> nat \<Rightarrow> ksa_state \<Rightarrow> ksa_state" where
  "ksa_loop keyDecrypted i s =
     (if i < 256 then ksa_loop keyDecrypted (i + 1) (ksa_step keyDecrypted i s) else s)"
  by pat_completeness auto

termination
  by (relation "measure (\<lambda>(keyDecrypted, i, s). 256 - i)") auto

definition init_key_box :: "u8 list" where
  "init_key_box = map of_nat [0..<256]"

definition build_key_box :: "u8 list \<Rightarrow> u8 list" where
  "build_key_box keyDecrypted =
     keyBox (ksa_loop keyDecrypted 0 \<lparr>keyBox = init_key_box, lastByte = 0, keyOffset = 0\<rparr>)"

section \<open>Decoding the audio payload\<close>

text \<open>The index expression shared by both decoders, for a position \<open>j\<close> already masked.\<close>

definition key_index :: "u8 list \<Rightarrow> nat \<Rightarrow> nat" where
  "key_index kb j = and_ff (unat (kb ! j) + unat (kb ! and_ff (unat (kb ! j) + j)))"

text \<open>
  Browser decoder, lines 138-144: one pass over the whole payload, \<open>i\<close> counted from
  the start of the payload.
\<close>

function audio_loop :: "u8 list \<Rightarrow> u8 list \<Rightarrow> nat \<Rightarrow> u8 list \<Rightarrow> u8 list" where
  "audio_loop kb audioIn i audioOut =
     (if i < length audioIn
      then audio_loop kb audioIn (i + 1)
             (audioOut[i := (audioIn ! i) XOR (kb ! key_index kb (and_ff (i + 1)))])
      else audioOut)"
  by pat_completeness auto

termination
  by (relation "measure (\<lambda>(kb, audioIn, i, audioOut). length audioIn - i)") auto

definition decode_audio :: "u8 list \<Rightarrow> u8 list \<Rightarrow> u8 list" where
  "decode_audio kb audioIn = audio_loop kb audioIn 0 (replicate (length audioIn) 0)"

text \<open>
  Node decoder, lines 83-94: the payload is cut into chunks of \<open>CHUNK\<close> bytes, and the
  inner loop counts \<open>i\<close> from 1 inside each chunk. The chunk size is a parameter
  here; the script fixes it to \<open>0x8000\<close>. With a chunk size of 0 the script's outer
  loop never advances: the model then has no result (\<open>None\<close>).
\<close>

function chunk_loop :: "u8 list \<Rightarrow> nat \<Rightarrow> u8 list \<Rightarrow> u8 list" where
  "chunk_loop kb i chunk =
     (if i \<le> length chunk
      then chunk_loop kb (i + 1)
             (chunk[i - 1 := (chunk ! (i - 1)) XOR (kb ! key_index kb (and_ff i))])
      else chunk)"
  by pat_completeness auto

termination
  by (relation "measure (\<lambda>(kb, i, chunk). Suc (length chunk) - i)") auto

definition decode_chunk :: "u8 list \<Rightarrow> u8 list \<Rightarrow> u8 list" where
  "decode_chunk kb chunk = chunk_loop kb 1 chunk"

definition subarray :: "'a list \<Rightarrow> nat \<Rightarrow> nat \<Rightarrow> 'a list" where
  \<comment> \<open>\<open>buf.subarray(start, end)\<close> and \<open>u8.slice(start, end)\<close> with \<open>start \<le> end\<close>: clamped to the buffer\<close>
  "subarray xs start end = take (min end (length xs) - start) (drop start xs)"

partial_function (option) write_chunks ::
  "nat \<Rightarrow> u8 list \<Rightarrow> u8 list \<Rightarrow> nat \<Rightarrow> u8 list \<Rightarrow> u8 list option" where
  "write_chunks chunkSize kb data pos written =
     (if pos < length data
      then (let end = min (pos + chunkSize) (length data);
                chunk = subarray data pos end
            in write_chunks chunkSize kb data (pos + chunkSize) (written @ decode_chunk kb chunk))
      else Some written)"

definition CHUNK :: nat where
  "CHUNK = 0x8000"

section \<open>Errors, JavaScript values and library primitives\<close>

text \<open>
  Every \<open>throw\<close> of the decoders and every exception of a primitive they call is a value
  of \<open>error\<close>. Neither decoder has a \<open>try\<close>/\<open>catch\<close>: the first exception ends the
  call.
\<close>

datatype error =
    SystemError             \<comment> \<open>\<open>node:fs\<close>: the operating system refuses the call (\<open>ENOENT\<close>, \<open>EACCES\<close>, ...)\<close>
  | InvalidHeader           \<comment> \<open>\<open>throw new Error('Invalid NCM header ...')\<close>\<close>
  | RangeError              \<comment> \<open>\<open>readUInt32LE\<close>, \<open>getUint32\<close>, \<open>new Uint8Array(n)\<close> out of range\<close>
  | CipherError             \<comment> \<open>the AES primitive rejects the ciphertext\<close>
  | InvalidCharacterError   \<comment> \<open>\<open>atob\<close> on a string that is not base64\<close>
  | SyntaxError             \<comment> \<open>\<open>JSON.parse\<close>\<close>
  | TypeError               \<comment> \<open>property read on \<open>null\<close>, call of a missing method, no string conversion\<close>

text \<open>
  The value returned by \<open>JSON.parse\<close>. Numbers are kept abstract (\<open>'n\<close>); the
  properties of an object are an association list read with \<open>map_of\<close>. A string is a list
  of 8-bit characters, read as UTF-16 code units below 256.
\<close>

datatype 'n json =
    JNull
  | JBool bool
  | JNum 'n
  | JStr string
  | JArr "'n json list"
  | JObj "(string \<times> 'n json) list"

text \<open>
  Primitives of the JavaScript runtime that both decoders call. \<open>None\<close> is a thrown
  exception.
\<close>

record 'n js_lib =
  utf8_decode :: "u8 list \<Rightarrow> string"            \<comment> \<open>\<open>buf.toString('utf8')\<close>, \<open>TextDecoder.decode\<close>\<close>
  JSON_parse :: "string \<Rightarrow> 'n json option"
  number_falsy :: "'n \<Rightarrow> bool"                    \<comment> \<open>the number is \<open>0\<close> or \<open>NaN\<close>\<close>
  number_toString :: "'n \<Rightarrow> string"

text \<open>
  Primitives of Node: \<open>node:crypto\<close>, \<open>Buffer\<close>, \<open>node:path\<close> and \<open>node:fs\<close>. The state
  of the file system is a value of type \<open>'fs\<close>. Of \<open>node:fs\<close> the script uses
  \<open>readFileSync(path)\<close>; \<open>openSync(path, 'w')\<close>, which creates or empties the file or
  throws; \<open>writeSync(fd, chunk)\<close>, which appends the chunk to the opened file or throws; and
  \<open>closeSync(fd)\<close>. The descriptor is known here by the path it was opened with. A call
  that throws is \<open>None\<close> or \<open>False\<close>, with the file system that it leaves.
\<close>

record ('n, 'fs) node_lib = "'n js_lib" +
  decipher_aes_128_ecb :: "u8 list \<Rightarrow> u8 list \<Rightarrow> u8 list option"
    \<comment> \<open>\<open>createDecipheriv('aes-128-ecb', key, null)\<close>, then \<open>update\<close> and \<open>final\<close>\<close>
  buffer_from_base64 :: "string \<Rightarrow> u8 list"
  path_basename :: "string \<Rightarrow> string"
  path_dirname :: "string \<Rightarrow> string"
  path_join :: "string \<Rightarrow> string \<Rightarrow> string"
  fs_readFileSync :: "'fs \<Rightarrow> string \<Rightarrow> u8 list option"
  fs_openSync :: "'fs \<Rightarrow> string \<Rightarrow> 'fs option"
  fs_writeSync :: "'fs \<Rightarrow> string \<Rightarrow> u8 list \<Rightarrow> bool \<times> 'fs"
  fs_closeSync :: "'fs \<Rightarrow> string \<Rightarrow> bool \<times> 'fs"

text \<open>Primitives of the browser: CryptoJS and \<open>atob\<close>.\<close>

record word_array =
  words :: "32 word list"
  sigBytes :: int

record 'n browser_lib = "'n js_lib" +
  CryptoJS_AES_decrypt :: "word_array \<Rightarrow> string \<Rightarrow> word_array option"
    \<comment> \<open>\<open>CryptoJS.AES.decrypt({ciphertext}, Hex.parse(keyHex), {ECB, Pkcs7})\<close>\<close>
  atob :: "string \<Rightarrow> string option"

section \<open>Pieces shared by the two decoders\<close>

definition readUInt32LE :: "u8 list \<Rightarrow> nat \<Rightarrow> error + nat" where
  \<comment> \<open>\<open>data.readUInt32LE(offset)\<close> and \<open>view.getUint32(offset, true)\<close>\<close>
  "readUInt32LE data offset =
     (if offset + 4 \<le> length data
      then Inr (unat (data ! offset) + unat (data ! (offset + 1)) * 2 ^ 8 +
                unat (data ! (offset + 2)) * 2 ^ 16 + unat (data ! (offset + 3)) * 2 ^ 24)
      else Inl RangeError)"

definition xor_each :: "u8 \<Rightarrow> u8 list \<Rightarrow> u8 list" where
  \<comment> \<open>\<open>for (let i = 0; i < buf.length; i++) buf[i] ^= k\<close>\<close>
  "xor_each k buf = map (\<lambda>b. b XOR k) buf"

definition expected :: "u8 list" where
  "expected = [0x43, 0x54, 0x45, 0x4e, 0x46, 0x44, 0x41, 0x4d]"

definition coreKey :: "u8 list" where
  "coreKey = [0x68, 0x7A, 0x48, 0x52, 0x41, 0x6D, 0x73, 0x6F,
              0x35, 0x6B, 0x49, 0x6E, 0x62, 0x61, 0x78, 0x57]"

definition metaKey :: "u8 list" where
  "metaKey = [0x23, 0x31, 0x34, 0x6C, 0x6A, 0x6B, 0x5F, 0x21,
              0x5C, 0x5D, 0x26, 0x30, 0x55, 0x3C, 0x27, 0x28]"

definition CORE_KEY_HEX :: string where
  "CORE_KEY_HEX = ''687A4852416D736F356B496E62617857''"

definition META_KEY_HEX :: string where
  "META_KEY_HEX = ''2331346C6A6B5F215C5D2630553C2728''"

text \<open>
  \<open>crc32 + unknown 5 + image\<close>: the checksum is read and dropped, the image bytes are
  skipped without being read.
\<close>

definition skip_image :: "u8 list \<Rightarrow> nat \<Rightarrow> error + nat" where
  "skip_image data offset =
     (case readUInt32LE data offset of
        Inl e \<Rightarrow> Inl e
      | Inr crc32 \<Rightarrow>
          (case readUInt32LE data (offset + 4 + 5) of
             Inl e \<Rightarrow> Inl e
           | Inr imageSize \<Rightarrow> Inr (offset + 4 + 5 + 4 + imageSize)))"

text \<open>\<open>metaJson.format\<close>: \<open>None\<close> is \<open>undefined\<close>; reading a property of \<open>null\<close> throws.\<close>

definition get_format :: "'n json \<Rightarrow> error + 'n json option" where
  "get_format metaJson =
     (case metaJson of
        JNull \<Rightarrow> Inl TypeError
      | JObj props \<Rightarrow> Inr (map_of props ''format'')
      | _ \<Rightarrow> Inr None)"

fun truthy :: "('n, 'a) js_lib_scheme \<Rightarrow> 'n json \<Rightarrow> bool" where
  "truthy lib JNull = False"
| "truthy lib (JBool b) = b"
| "truthy lib (JNum n) = (\<not> number_falsy lib n)"
| "truthy lib (JStr s) = (s \<noteq> [])"
| "truthy lib (JArr xs) = True"
| "truthy lib (JObj props) = True"

definition or_mp3 :: "('n, 'a) js_lib_scheme \<Rightarrow> 'n json option \<Rightarrow> 'n json" where
  \<comment> \<open>\<open>v || 'mp3'\<close>\<close>
  "or_mp3 lib v =
     (case v of
        None \<Rightarrow> JStr ''mp3''
      | Some x \<Rightarrow> if truthy lib x then x else JStr ''mp3'')"

text \<open>
  The string conversion applied by \<open>'.' + format\<close>. A value from \<open>JSON.parse\<close> holds
  no function, so an object with an own property \<open>toString\<close> has no callable conversion
  method and the conversion throws; any other object gives \<open>[object Object]\<close>. An array
  is joined with commas, \<open>null\<close> elements giving the empty string.
\<close>

fun join_comma :: "string list \<Rightarrow> string" where
  "join_comma [] = []"
| "join_comma [s] = s"
| "join_comma (s # t # ss) = s @ '','' @ join_comma (t # ss)"

fun first_error :: "(error + 'a) list \<Rightarrow> error + 'a list" where
  "first_error [] = Inr []"
| "first_error (Inl e # rs) = Inl e"
| "first_error (Inr x # rs) = (case first_error rs of Inl e \<Rightarrow> Inl e | Inr xs \<Rightarrow> Inr (x # xs))"

fun js_toString :: "('n, 'a) js_lib_scheme \<Rightarrow> 'n json \<Rightarrow> error + string" where
  "js_toString lib JNull = Inr ''null''"
| "js_toString lib (JBool b) = Inr (if b then ''true'' else ''false'')"
| "js_toString lib (JNum n) = Inr (number_toString lib n)"
| "js_toString lib (JStr s) = Inr s"
| "js_toString lib (JArr xs) =
     (case first_error (map (\<lambda>x. if x = JNull then Inr [] else js_toString lib x) xs) of
        Inl e \<Rightarrow> Inl e
      | Inr ss \<Rightarrow> Inr (join_comma ss))"
| "js_toString lib (JObj props) =
     (if map_of props ''toString'' \<noteq> None then Inl TypeError else Inr ''[object Object]'')"

text \<open>
  \<open>s.toLowerCase()\<close> on code units below 256: the letters A-Z and the Latin-1 capitals
  U+00C0-U+00DE (without the multiplication sign U+00D7) move up by 32.
\<close>

definition lower_char :: "char \<Rightarrow> char" where
  "lower_char c =
     (let n = of_char c :: nat
      in if (65 \<le> n \<and> n \<le> 90) \<or> (192 \<le> n \<and> n \<le> 222 \<and> n \<noteq> 215)
         then char_of (n + 32) else c)"

definition toLowerCase :: "string \<Rightarrow> string" where
  "toLowerCase s = map lower_char s"

text \<open>
  \<open>name.replace(/\.ncm$/i, '')\<close>: the pattern matches only at the end of the string;
  \<open>i\<close> makes each letter match in either case.
\<close>

definition ends_with_ncm :: "string \<Rightarrow> bool" where
  "ends_with_ncm s =
     (4 \<le> length s \<and>
      (let t = drop (length s - 4) s
       in t ! 0 = CHR ''.'' \<and> (t ! 1 = CHR ''n'' \<or> t ! 1 = CHR ''N'') \<and>
          (t ! 2 = CHR ''c'' \<or> t ! 2 = CHR ''C'') \<and> (t ! 3 = CHR ''m'' \<or> t ! 3 = CHR ''M'')))"

definition strip_ncm :: "string \<Rightarrow> string" where
  "strip_ncm s = (if ends_with_ncm s then take (length s - 4) s else s)"

section \<open>The Node decoder: \<open>dump\<close> in \<open>scripts/ncmdump.js\<close>\<close>

definition hex_digit :: "nat \<Rightarrow> char" where
  "hex_digit n = ''0123456789abcdef'' ! n"

definition to_hex :: "u8 list \<Rightarrow> string" where
  \<comment> \<open>\<open>buf.toString('hex')\<close>\<close>
  "to_hex buf = concat (map (\<lambda>b. [hex_digit (unat b div 16), hex_digit (unat b mod 16)]) buf)"

text \<open>\<open>header\<close>, lines 16-21.\<close>

definition dump_header :: "u8 list \<Rightarrow> error + nat" where
  "dump_header data =
     (if to_hex (subarray data 0 8) \<noteq> ''4354454e4644414d'' then Inl InvalidHeader else Inr 8)"

text \<open>
  \<open>key data\<close>, lines 26-35: the derived key and the offset after the key block. The
  slice is clamped to the buffer, and the offset moves on by the declared length.
\<close>

definition dump_key_data :: "('n, 'fs, 'a) node_lib_scheme \<Rightarrow> u8 list \<Rightarrow> nat \<Rightarrow> error + (u8 list \<times> nat)" where
  "dump_key_data lib data offset =
     (case readUInt32LE data offset of
        Inl e \<Rightarrow> Inl e
      | Inr keyLength \<Rightarrow>
          (let keyDataXored = xor_each 0x64 (subarray data (offset + 4) (offset + 4 + keyLength))
           in case decipher_aes_128_ecb lib coreKey keyDataXored of
                None \<Rightarrow> Inl CipherError
              | Some plain \<Rightarrow> Inr (drop 17 plain, offset + 4 + keyLength)))"

text \<open>\<open>meta data\<close>, lines 53-64: the parsed metadata and the offset after the block.\<close>

definition dump_meta_data :: "('n, 'fs, 'a) node_lib_scheme \<Rightarrow> u8 list \<Rightarrow> nat \<Rightarrow> error + ('n json \<times> nat)" where
  "dump_meta_data lib data offset =
     (case readUInt32LE data offset of
        Inl e \<Rightarrow> Inl e
      | Inr metaLength \<Rightarrow>
          (let metaDataXored = xor_each 0x63 (subarray data (offset + 4) (offset + 4 + metaLength));
               metaB64 = utf8_decode lib (drop 22 metaDataXored);
               metaEncrypted = buffer_from_base64 lib metaB64
           in case decipher_aes_128_ecb lib metaKey metaEncrypted of
                None \<Rightarrow> Inl CipherError
              | Some metaPlain \<Rightarrow>
                  (case JSON_parse lib (drop 6 (utf8_decode lib metaPlain)) of
                     None \<Rightarrow> Inl SyntaxError
                   | Some metaJson \<Rightarrow> Inr (metaJson, offset + 4 + metaLength))))"

text \<open>Lines 16-73 in order: header, key data, key box, meta data, image.\<close>

definition dump_parse :: "('n, 'fs, 'a) node_lib_scheme \<Rightarrow> u8 list \<Rightarrow> error + (u8 list \<times> 'n json \<times> nat)" where
  "dump_parse lib data =
     (case dump_header data of
        Inl e \<Rightarrow> Inl e
      | Inr offset \<Rightarrow>
          (case dump_key_data lib data (offset + 2) of
             Inl e \<Rightarrow> Inl e
           | Inr (keyDecrypted, offset) \<Rightarrow>
               (let kb = build_key_box keyDecrypted
                in case dump_meta_data lib data offset of
                     Inl e \<Rightarrow> Inl e
                   | Inr (metaJson, offset) \<Rightarrow>
                       (case skip_image data offset of
                          Inl e \<Rightarrow> Inl e
                        | Inr offset \<Rightarrow> Inr (kb, metaJson, offset)))))"

text \<open>\<open>output file name\<close>, lines 75-78.\<close>

definition dump_format :: "('n, 'fs, 'a) node_lib_scheme \<Rightarrow> 'n json \<Rightarrow> error + 'n json" where
  "dump_format lib metaJson =
     (case get_format metaJson of
        Inl e \<Rightarrow> Inl e
      | Inr v \<Rightarrow> Inr (or_mp3 lib v))"

definition dump_outFileName :: "('n, 'fs, 'a) node_lib_scheme \<Rightarrow> string \<Rightarrow> 'n json \<Rightarrow> error + string" where
  "dump_outFileName lib filePath format =
     (case js_toString lib format of
        Inl e \<Rightarrow> Inl e
      | Inr suffix \<Rightarrow> Inr (strip_ncm (path_basename lib filePath) @ ''.'' @ suffix))"

definition dump_outPath :: "('n, 'fs, 'a) node_lib_scheme \<Rightarrow> string \<Rightarrow> 'n json \<Rightarrow> error + string" where
  "dump_outPath lib filePath format =
     (case dump_outFileName lib filePath format of
        Inl e \<Rightarrow> Inl e
      | Inr outFileName \<Rightarrow> Inr (path_join lib (path_dirname lib filePath) outFileName))"

text \<open>
  The loop of lines 84-94, with the file system: every chunk is decoded and handed to
  \<open>writeSync\<close>, and a write that throws ends the loop. The result is whether every write
  succeeded, with the file system that is left.
\<close>

partial_function (option) write_loop ::
  "('n, 'fs, 'a) node_lib_scheme \<Rightarrow> u8 list \<Rightarrow> u8 list \<Rightarrow> string \<Rightarrow> nat \<Rightarrow> 'fs \<Rightarrow> (bool \<times> 'fs) option" where
  "write_loop lib kb data outPath pos files =
     (if pos < length data
      then (let end = min (pos + CHUNK) (length data);
                chunk = decode_chunk kb (subarray data pos end);
                (ok, files') = fs_writeSync lib files outPath chunk
            in if ok then write_loop lib kb data outPath (pos + CHUNK) files'
               else Some (False, files'))
      else Some (True, files))"

text \<open>
  The whole function: it takes the file system and returns it with the result. An
  exception before \<open>openSync\<close> leaves the file system as it was. After \<open>openSync\<close>,
  \<open>closeSync\<close> is called in the \<open>finally\<close> block, whether the loop ended by itself or by
  an exception, and an exception of \<open>closeSync\<close> is then the one that leaves the function.
  The outer \<open>None\<close> is a call that does not return.
\<close>

definition dump :: "('n, 'fs, 'a) node_lib_scheme \<Rightarrow> 'fs \<Rightarrow> string \<Rightarrow> ((error + string) \<times> 'fs) option" where
  "dump lib files filePath =
     (case fs_readFileSync lib files filePath of
        None \<Rightarrow> Some (Inl SystemError, files)
      | Some data \<Rightarrow>
          (case dump_parse lib data of
             Inl e \<Rightarrow> Some (Inl e, files)
           | Inr (kb, metaJson, offset) \<Rightarrow>
               (case dump_format lib metaJson of
                  Inl e \<Rightarrow> Some (Inl e, files)
                | Inr format \<Rightarrow>
                    (case dump_outPath lib filePath format of
                       Inl e \<Rightarrow> Some (Inl e, files)
                     | Inr outPath \<Rightarrow>
                         (case fs_openSync lib files outPath of
                            None \<Rightarrow> Some (Inl SystemError, files)
                          | Some opened \<Rightarrow>
                              (case write_loop lib kb data outPath offset opened of
                                 None \<Rightarrow> None
                               | Some (written, files') \<Rightarrow>
                                   (let (closed, files'') = fs_closeSync lib files' outPath
                                    in if written \<and> closed then Some (Inr outPath, files'')
                                       else Some (Inl SystemError, files''))))))))"

section \<open>The browser decoder: \<open>dumpNcm\<close> in \<open>src/lib/ncmdump-browser.ts\<close>\<close>

text \<open>\<open>u8ToWordArray\<close>: four bytes to a big-endian word, a missing byte counts as 0.\<close>

definition pack_word :: "u8 \<Rightarrow> u8 \<Rightarrow> u8 \<Rightarrow> u8 \<Rightarrow> 32 word" where
  "pack_word b0 b1 b2 b3 =
     push_bit 24 (ucast b0) OR push_bit 16 (ucast b1) OR push_bit 8 (ucast b2) OR ucast b3"

fun pack_words :: "u8 list \<Rightarrow> 32 word list" where
  "pack_words (b0 # b1 # b2 # b3 # rest) = pack_word b0 b1 b2 b3 # pack_words rest"
| "pack_words [b0, b1, b2] = [pack_word b0 b1 b2 0]"
| "pack_words [b0, b1] = [pack_word b0 b1 0 0]"
| "pack_words [b0] = [pack_word b0 0 0 0]"
| "pack_words [] = []"

definition u8ToWordArray :: "u8 list \<Rightarrow> word_array" where
  "u8ToWordArray u8 = \<lparr>words = pack_words u8, sigBytes = int (length u8)\<rparr>"

text \<open>
  \<open>wordArrayToU8\<close>: \<open>new Uint8Array(sigBytes)\<close> throws for a negative length; a word
  beyond the array is \<open>undefined\<close> and shifts to 0.
\<close>

definition word_at :: "32 word list \<Rightarrow> nat \<Rightarrow> 32 word" where
  "word_at ws k = (if k < length ws then ws ! k else 0)"

definition wordArrayToU8 :: "word_array \<Rightarrow> error + u8 list" where
  "wordArrayToU8 wa =
     (if sigBytes wa < 0 then Inl RangeError
      else Inr (map (\<lambda>i. ucast (drop_bit (24 - (i mod 4) * 8) (word_at (words wa) (i div 4)) AND 0xff))
                  [0..<nat (sigBytes wa)]))"

definition aes128EcbDecrypt :: "('n, 'a) browser_lib_scheme \<Rightarrow> u8 list \<Rightarrow> string \<Rightarrow> error + u8 list" where
  "aes128EcbDecrypt lib data keyHex =
     (case CryptoJS_AES_decrypt lib (u8ToWordArray data) keyHex of
        None \<Rightarrow> Inl CipherError
      | Some decrypted \<Rightarrow> wordArrayToU8 decrypted)"

definition mimeFromFormat :: "string \<Rightarrow> string" where
  "mimeFromFormat format =
     (let f = toLowerCase format
      in if f = ''mp3'' then ''audio/mpeg''
         else if f = ''flac'' then ''audio/flac''
         else if f = ''m4a'' then ''audio/mp4''
         else if f = ''aac'' then ''audio/aac''
         else if f = ''wav'' then ''audio/wav''
         else if f = ''ogg'' then ''audio/ogg''
         else ''application/octet-stream'')"

record blob =
  blob_bytes :: "u8 list"
  blob_type :: string

record 'n DumpResult =
  blob :: blob
  filename :: string
  format :: string
  meta :: "'n json"

text \<open>Header, line 86: \<open>bytes[i]\<close> beyond the buffer is \<open>undefined\<close> and differs.\<close>

definition byte_at :: "u8 list \<Rightarrow> nat \<Rightarrow> u8 option" where
  "byte_at bytes i = (if i < length bytes then Some (bytes ! i) else None)"

definition dumpNcm_header :: "u8 list \<Rightarrow> error + nat" where
  "dumpNcm_header bytes =
     (if \<exists>i \<in> set [0..<8]. byte_at bytes i \<noteq> Some (expected ! i) then Inl InvalidHeader else Inr 8)"

text \<open>\<open>key data\<close>, lines 92-98.\<close>

definition dumpNcm_key_data :: "('n, 'a) browser_lib_scheme \<Rightarrow> u8 list \<Rightarrow> nat \<Rightarrow> error + (u8 list \<times> nat)" where
  "dumpNcm_key_data lib bytes offset =
     (case readUInt32LE bytes offset of
        Inl e \<Rightarrow> Inl e
      | Inr keyLength \<Rightarrow>
          (let keyDataXored = xor_each 0x64 (subarray bytes (offset + 4) (offset + 4 + keyLength))
           in case aes128EcbDecrypt lib keyDataXored CORE_KEY_HEX of
                Inl e \<Rightarrow> Inl e
              | Inr plain \<Rightarrow> Inr (drop 17 plain, offset + 4 + keyLength)))"

text \<open>\<open>meta data\<close>, lines 116-126.\<close>

definition dumpNcm_meta_data :: "('n, 'a) browser_lib_scheme \<Rightarrow> u8 list \<Rightarrow> nat \<Rightarrow> error + ('n json \<times> nat)" where
  "dumpNcm_meta_data lib bytes offset =
     (case readUInt32LE bytes offset of
        Inl e \<Rightarrow> Inl e
      | Inr metaLength \<Rightarrow>
          (let metaDataXored = xor_each 0x63 (subarray bytes (offset + 4) (offset + 4 + metaLength));
               metaB64 = utf8_decode lib (drop 22 metaDataXored)
           in case atob lib metaB64 of
                None \<Rightarrow> Inl InvalidCharacterError
              | Some bin \<Rightarrow>
                  (let metaEncrypted = map (\<lambda>c. of_nat (of_char c)) bin
                   in case aes128EcbDecrypt lib metaEncrypted META_KEY_HEX of
                        Inl e \<Rightarrow> Inl e
                      | Inr metaPlain \<Rightarrow>
                          (case JSON_parse lib (drop 6 (utf8_decode lib metaPlain)) of
                             None \<Rightarrow> Inl SyntaxError
                           | Some metaJson \<Rightarrow> Inr (metaJson, offset + 4 + metaLength)))))"

text \<open>Lines 82-135 in order.\<close>

definition dumpNcm_parse :: "('n, 'a) browser_lib_scheme \<Rightarrow> u8 list \<Rightarrow> error + (u8 list \<times> 'n json \<times> nat)" where
  "dumpNcm_parse lib bytes =
     (case dumpNcm_header bytes of
        Inl e \<Rightarrow> Inl e
      | Inr offset \<Rightarrow>
          (case dumpNcm_key_data lib bytes (offset + 2) of
             Inl e \<Rightarrow> Inl e
           | Inr (keyDecrypted, offset) \<Rightarrow>
               (let kb = build_key_box keyDecrypted
                in case dumpNcm_meta_data lib bytes offset of
                     Inl e \<Rightarrow> Inl e
                   | Inr (metaJson, offset) \<Rightarrow>
                       (case skip_image bytes offset of
                          Inl e \<Rightarrow> Inl e
                        | Inr offset \<Rightarrow> Inr (kb, metaJson, offset)))))"

text \<open>
  Line 146: \<open>(metaJson.format || 'mp3').toLowerCase()\<close>. Only a string has the method.
\<close>

definition dumpNcm_format :: "('n, 'a) browser_lib_scheme \<Rightarrow> 'n json \<Rightarrow> error + string" where
  "dumpNcm_format lib metaJson =
     (case get_format metaJson of
        Inl e \<Rightarrow> Inl e
      | Inr v \<Rightarrow>
          (case or_mp3 lib v of
             JStr s \<Rightarrow> Inr (toLowerCase s)
           | _ \<Rightarrow> Inl TypeError))"

text \<open>
  Line 147: \<open>(opts?.sourceFileName || 'output.ncm').replace(/\.ncm$/i, '')\<close>. The
  argument is \<open>None\<close> when \<open>opts\<close> or its field is missing; an empty name is falsy.
\<close>

definition dumpNcm_base :: "string option \<Rightarrow> string" where
  "dumpNcm_base sourceFileName =
     strip_ncm (case sourceFileName of
                  None \<Rightarrow> ''output.ncm''
                | Some name \<Rightarrow> if name = [] then ''output.ncm'' else name)"

definition dumpNcm :: "('n, 'a) browser_lib_scheme \<Rightarrow> u8 list \<Rightarrow> string option \<Rightarrow> error + 'n DumpResult" where
  "dumpNcm lib bytes sourceFileName =
     (case dumpNcm_parse lib bytes of
        Inl e \<Rightarrow> Inl e
      | Inr (kb, metaJson, offset) \<Rightarrow>
          (let audioIn = drop offset bytes;
               audioOut = decode_audio kb audioIn
           in case dumpNcm_format lib metaJson of
                Inl e \<Rightarrow> Inl e
              | Inr fmt \<Rightarrow>
                  (let base = dumpNcm_base sourceFileName;
                       name = base @ ''.'' @ fmt
                   in Inr \<lparr>blob = \<lparr>blob_bytes = audioOut, blob_type = mimeFromFormat fmt\<rparr>,
                           filename = name, format = fmt, meta = metaJson\<rparr>)))"

section \<open>Auxiliary definitions for the proofs\<close>

text \<open>The keystream byte applied at payload position \<open>n\<close> (counted from 0).\<close>

definition keystream :: "u8 list \<Rightarrow> nat \<Rightarrow> u8" where
  "keystream kb n = kb ! key_index kb (and_ff (n + 1))"

text \<open>
  The key box after \<open>i\<close> rounds of the loop when the derived key is empty: every
  round swaps position \<open>i\<close> with position 0.
\<close>

definition rot_box :: "nat \<Rightarrow> u8 list" where
  "rot_box i = map (\<lambda>k. of_nat (if k = 0 then i - 1 else if k < i then k - 1 else k)) [0..<256]"

declare ksa_loop.simps [simp del] audio_loop.simps [simp del] chunk_loop.simps [simp del]

section \<open>Reference models of the library primitives\<close>

text \<open>
  The decoders are stated over arbitrary library primitives. To run them on concrete
  container files, the primitives are given reference models here: AES-128 (FIPS 197) in
  ECB mode with PKCS#7 padding, base64, and small models of UTF-8 decoding,
  \<open>JSON.parse\<close> and \<open>node:path\<close> that are exact on the inputs evaluated below.
\<close>

subsection \<open>AES-128 decryption\<close>

definition aes_sbox :: "int list list" where
  "aes_sbox =
   [[99, 124, 119, 123, 242, 107, 111, 197, 48, 1, 103, 43, 254, 215, 171, 118],
    [202, 130, 201, 125, 250, 89, 71, 240, 173, 212, 162, 175, 156, 164, 114, 192],
    [183, 253, 147, 38, 54, 63, 247, 204, 52, 165, 229, 241, 113, 216, 49, 21],
    [4, 199, 35, 195, 24, 150, 5, 154, 7, 18, 128, 226, 235, 39, 178, 117],
    [9, 131, 44, 26, 27, 110, 90, 160, 82, 59, 214, 179, 41, 227, 47, 132],
    [83, 209, 0, 237, 32, 252, 177, 91, 106, 203, 190, 57, 74, 76, 88, 207],
    [208, 239, 170, 251, 67, 77, 51, 133, 69, 249, 2, 127, 80, 60, 159, 168],
    [81, 163, 64, 143, 146, 157, 56, 245, 188, 182, 218, 33, 16, 255, 243, 210],
    [205, 12, 19, 236, 95, 151, 68, 23, 196, 167, 126, 61, 100, 93, 25, 115],
    [96, 129, 79, 220, 34, 42, 144, 136, 70, 238, 184, 20, 222, 94, 11, 219],
    [224, 50, 58, 10, 73, 6, 36, 92, 194, 211, 172, 98, 145, 149, 228, 121],
    [231, 200, 55, 109, 141, 213, 78, 169, 108, 86, 244, 234, 101, 122, 174, 8],
    [186, 120, 37, 46, 28, 166, 180, 198, 232, 221, 116, 31, 75, 189, 139, 138],
    [112, 62, 181, 102, 72, 3, 246, 14, 97, 53, 87, 185, 134, 193, 29, 158],
    [225, 248, 152, 17, 105, 217, 142, 148, 155, 30, 135, 233, 206, 85, 40, 223],
    [140, 161, 137, 13, 191, 230, 66, 104, 65, 153, 45, 15, 176, 84, 187, 22]]"

definition aes_inv_sbox :: "int list list" where
  "aes_inv_sbox =
   [[82, 9, 106, 213, 48, 54, 165, 56, 191, 64, 163, 158, 129, 243, 215, 251],
    [124, 227, 57, 130, 155, 47, 255, 135, 52, 142, 67, 68, 196, 222, 233, 203],
    [84, 123, 148, 50, 166, 194, 35, 61, 238, 76, 149, 11, 66, 250, 195, 78],
    [8, 46, 161, 102, 40, 217, 36, 178, 118, 91, 162, 73, 109, 139, 209, 37],
    [114, 248, 246, 100, 134, 104, 152, 22, 212, 164, 92, 204, 93, 101, 182, 146],
    [108, 112, 72, 80, 253, 237, 185, 218, 94, 21, 70, 87, 167, 141, 157, 132],
    [144, 216, 171, 0, 140, 188, 211, 10, 247, 228, 88, 5, 184, 179, 69, 6],
    [208, 44, 30, 143, 202, 63, 15, 2, 193, 175, 189, 3, 1, 19, 138, 107],
    [58, 145, 17, 65, 79, 103, 220, 234, 151, 242, 207, 206, 240, 180, 230, 115],
    [150, 172, 116, 34, 231, 173, 53, 133, 226, 249, 55, 232, 28, 117, 223, 110],
    [71, 241, 26, 113, 29, 41, 197, 137, 111, 183, 98, 14, 170, 24, 190, 27],
    [252, 86, 62, 75, 198, 210, 121, 32, 154, 219, 192, 254, 120, 205, 90, 244],
    [31, 221, 168, 51, 136, 7, 199, 49, 177, 18, 16, 89, 39, 128, 236, 95],
    [96, 81, 127, 169, 25, 181, 74, 13, 45, 229, 122, 159, 147, 201, 156, 239],
    [160, 224, 59, 77, 174, 42, 245, 176, 200, 235, 187, 60, 131, 83, 153, 97],
    [23, 43, 4, 126, 186, 119, 214, 38, 225, 105, 20, 99, 85, 33, 12, 125]]"

definition sub_byte :: "int \<Rightarrow> int" where
  "sub_byte a = aes_sbox ! nat (a div 16) ! nat (a mod 16)"

definition inv_sub_byte :: "int \<Rightarrow> int" where
  "inv_sub_byte a = aes_inv_sbox ! nat (a div 16) ! nat (a mod 16)"

definition xtime :: "int \<Rightarrow> int" where
  "xtime a = (if a < 128 then 2 * a else (2 * a - 256) XOR 27)"

definition gmul9 :: "int \<Rightarrow> int" where
  "gmul9 a = xtime (xtime (xtime a)) XOR a"

definition gmul11 :: "int \<Rightarrow> int" where
  "gmul11 a = xtime (xtime (xtime a)) XOR xtime a XOR a"

definition gmul13 :: "int \<Rightarrow> int" where
  "gmul13 a = xtime (xtime (xtime a)) XOR xtime (xtime a) XOR a"

definition gmul14 :: "int \<Rightarrow> int" where
  "gmul14 a = xtime (xtime (xtime a)) XOR xtime (xtime a) XOR xtime a"

definition xor_bytes :: "int list \<Rightarrow> int list \<Rightarrow> int list" where
  "xor_bytes xs ys = map2 (XOR) xs ys"

definition next_round_key :: "int list \<Rightarrow> int \<Rightarrow> int list" where
  "next_round_key rk rcon =
     (let w0 = take 4 rk; w1 = take 4 (drop 4 rk); w2 = take 4 (drop 8 rk); w3 = drop 12 rk;
          t = xor_bytes (map sub_byte (rotate1 w3)) [rcon, 0, 0, 0];
          v0 = xor_bytes w0 t; v1 = xor_bytes w1 v0; v2 = xor_bytes w2 v1; v3 = xor_bytes w3 v2
      in v0 @ v1 @ v2 @ v3)"

fun key_schedule :: "int list \<Rightarrow> int list \<Rightarrow> int list list" where
  "key_schedule rk [] = [rk]"
| "key_schedule rk (rcon # rcons) = rk # key_schedule (next_round_key rk rcon) rcons"

definition round_keys :: "int list \<Rightarrow> int list list" where
  "round_keys key = key_schedule key [1, 2, 4, 8, 16, 32, 64, 128, 27, 54]"

definition inv_shift_rows :: "int list \<Rightarrow> int list" where
  "inv_shift_rows st = map (\<lambda>i. st ! i) [0, 13, 10, 7, 4, 1, 14, 11, 8, 5, 2, 15, 12, 9, 6, 3]"

fun inv_mix_columns :: "int list \<Rightarrow> int list" where
  "inv_mix_columns (a0 # a1 # a2 # a3 # rest) =
     (gmul14 a0 XOR gmul11 a1 XOR gmul13 a2 XOR gmul9 a3) #
     (gmul9 a0 XOR gmul14 a1 XOR gmul11 a2 XOR gmul13 a3) #
     (gmul13 a0 XOR gmul9 a1 XOR gmul14 a2 XOR gmul11 a3) #
     (gmul11 a0 XOR gmul13 a1 XOR gmul9 a2 XOR gmul14 a3) # inv_mix_columns rest"
| "inv_mix_columns rest = []"

fun inv_rounds :: "int list list \<Rightarrow> int list \<Rightarrow> int list" where
  "inv_rounds [] st = st"
| "inv_rounds [rk0] st = xor_bytes (map inv_sub_byte (inv_shift_rows st)) rk0"
| "inv_rounds (rk # rks) st =
     inv_rounds rks (inv_mix_columns (xor_bytes (map inv_sub_byte (inv_shift_rows st)) rk))"

definition inv_cipher :: "int list list \<Rightarrow> int list \<Rightarrow> int list" where
  "inv_cipher rks block =
     (case rev rks of
        [] \<Rightarrow> block
      | rk10 # rest \<Rightarrow> inv_rounds rest (xor_bytes block rk10))"

function ecb_blocks :: "int list list \<Rightarrow> int list \<Rightarrow> int list" where
  "ecb_blocks rks ct =
     (if ct = [] then [] else inv_cipher rks (take 16 ct) @ ecb_blocks rks (drop 16 ct))"
  by pat_completeness auto

termination
  by (relation "measure (\<lambda>(rks, ct). length ct)") auto

declare ecb_blocks.simps [simp del]

text \<open>
  OpenSSL, as used by \<open>node:crypto\<close>: the ciphertext must be a positive number of whole
  blocks, and the last block must end in a valid PKCS#7 padding.
\<close>

definition pkcs7_unpad :: "int list \<Rightarrow> int list option" where
  "pkcs7_unpad pt =
     (if pt = [] then None
      else let n = nat (last pt)
           in if n = 0 \<or> 16 < n then None
              else if list_all (\<lambda>b. b = last pt) (drop (length pt - n) pt)
                   then Some (take (length pt - n) pt)
                   else None)"

definition openssl_aes_128_ecb_decrypt :: "u8 list \<Rightarrow> u8 list \<Rightarrow> u8 list option" where
  "openssl_aes_128_ecb_decrypt key ct =
     (if ct = [] \<or> length ct mod 16 \<noteq> 0 then None
      else map_option (map word_of_int)
             (pkcs7_unpad (ecb_blocks (round_keys (map uint key)) (map uint ct))))"

subsection \<open>Base64\<close>

definition b64_index :: "char \<Rightarrow> nat option" where
  "b64_index c =
     (let n = of_char c :: nat
      in if 65 \<le> n \<and> n \<le> 90 then Some (n - 65)
         else if 97 \<le> n \<and> n \<le> 122 then Some (n - 71)
         else if 48 \<le> n \<and> n \<le> 57 then Some (n + 4)
         else if n = 43 then Some 62
         else if n = 47 then Some 63
         else None)"

fun sextets_to_bytes :: "nat list \<Rightarrow> u8 list" where
  "sextets_to_bytes (a # b # c # d # rest) =
     of_nat (a * 4 + b div 16) # of_nat (b mod 16 * 16 + c div 4) # of_nat (c mod 4 * 64 + d) #
     sextets_to_bytes rest"
| "sextets_to_bytes [a, b, c] = [of_nat (a * 4 + b div 16), of_nat (b mod 16 * 16 + c div 4)]"
| "sextets_to_bytes [a, b] = [of_nat (a * 4 + b div 16)]"
| "sextets_to_bytes rest = []"

text \<open>
  \<open>Buffer.from(s, 'base64')\<close> never throws: characters outside the alphabet are skipped
  and decoding stops at the first \<open>=\<close>. (Node also reads the URL-safe \<open>-\<close> and \<open>_\<close>.)
\<close>

definition b64_index_node :: "char \<Rightarrow> nat option" where
  "b64_index_node c =
     (if c = CHR ''-'' then Some 62 else if c = CHR ''_'' then Some 63 else b64_index c)"

definition node_base64_decode :: "string \<Rightarrow> u8 list" where
  "node_base64_decode s =
     sextets_to_bytes (List.map_filter b64_index_node (takeWhile (\<lambda>c. c \<noteq> CHR ''='') s))"

text \<open>
  \<open>atob\<close> (the forgiving-base64 decode of the HTML standard): ASCII whitespace is
  removed, one or two trailing \<open>=\<close> are removed when the length is a multiple of 4, then
  a length of 1 modulo 4 or any character outside the alphabet is an error.
\<close>

definition ascii_whitespace :: "char \<Rightarrow> bool" where
  "ascii_whitespace c = (of_char c \<in> {9, 10, 12, 13, 32 :: nat})"

definition strip_padding :: "string \<Rightarrow> string" where
  "strip_padding s =
     (if length s mod 4 \<noteq> 0 then s
      else if 2 \<le> length s \<and> drop (length s - 2) s = ''=='' then take (length s - 2) s
      else if 1 \<le> length s \<and> drop (length s - 1) s = ''='' then take (length s - 1) s
      else s)"

definition atob_model :: "string \<Rightarrow> string option" where
  "atob_model s =
     (let t = strip_padding (filter (\<lambda>c. \<not> ascii_whitespace c) s)
      in if length t mod 4 = 1 \<or> (\<exists>c \<in> set t. b64_index c = None) then None
         else Some (map (\<lambda>b. char_of (unat b)) (sextets_to_bytes (List.map_filter b64_index t))))"

subsection \<open>Text decoding\<close>

text \<open>
  UTF-8 decoding, exact on ASCII. A byte from 0x80 on belongs to a sequence whose code
  point does not fit an 8-bit character; it is shown as \<open>?\<close>.
\<close>

definition ascii_decode :: "u8 list \<Rightarrow> string" where
  "ascii_decode bs = map (\<lambda>b. if b < 0x80 then char_of (unat b) else CHR ''?'') bs"

subsection \<open>\<open>JSON.parse\<close>\<close>

text \<open>
  A parser for the JSON texts that use no \<open>\u\<close> escape and whose numbers are integers;
  any other text is rejected. Numbers are \<open>int\<close>.
\<close>

definition json_ws :: "char \<Rightarrow> bool" where
  "json_ws c = (of_char c \<in> {9, 10, 13, 32 :: nat})"

definition skip_ws :: "string \<Rightarrow> string" where
  "skip_ws cs = dropWhile json_ws cs"

definition unescape :: "char \<Rightarrow> char option" where
  "unescape c =
     (if c = CHR ''\"'' \<or> c = CHR 0x5C \<or> c = CHR ''/'' then Some c
      else if c = CHR ''b'' then Some (CHR 0x08)
      else if c = CHR ''f'' then Some (CHR 0x0C)
      else if c = CHR ''n'' then Some (CHR 0x0A)
      else if c = CHR ''r'' then Some (CHR 0x0D)
      else if c = CHR ''t'' then Some (CHR 0x09)
      else None)"

fun parse_string :: "string \<Rightarrow> string \<Rightarrow> (string \<times> string) option" where
  "parse_string [] acc = None"
| "parse_string (c # cs) acc =
     (if c = CHR ''\"'' then Some (rev acc, cs)
      else if c = CHR 0x5C then
        (case cs of
           [] \<Rightarrow> None
         | e # rest \<Rightarrow>
             (case unescape e of None \<Rightarrow> None | Some d \<Rightarrow> parse_string rest (d # acc)))
      else if (of_char c :: nat) < 32 then None
      else parse_string cs (c # acc))"

definition is_digit :: "char \<Rightarrow> bool" where
  "is_digit c = (48 \<le> (of_char c :: nat) \<and> (of_char c :: nat) \<le> 57)"

definition digits_value :: "string \<Rightarrow> int" where
  "digits_value ds = foldl (\<lambda>v c. 10 * v + (int (of_char c) - 48)) 0 ds"

definition parse_number :: "string \<Rightarrow> (int \<times> string) option" where
  "parse_number cs =
     (let neg = (cs \<noteq> [] \<and> hd cs = CHR ''-'');
          body = (if neg then tl cs else cs);
          ds = takeWhile is_digit body;
          rest = dropWhile is_digit body
      in if ds = [] \<or> (1 < length ds \<and> hd ds = CHR ''0'') then None
         else if rest \<noteq> [] \<and> hd rest \<in> {CHR ''.'', CHR ''e'', CHR ''E''} then None
         else Some (if neg then - digits_value ds else digits_value ds, rest))"

fun put :: "string \<Rightarrow> 'v \<Rightarrow> (string \<times> 'v) list \<Rightarrow> (string \<times> 'v) list" where
  "put k v [] = [(k, v)]"
| "put k v ((k', v') # ps) = (if k = k' then (k, v) # ps else (k', v') # put k v ps)"

fun parse_value :: "nat \<Rightarrow> string \<Rightarrow> (int json \<times> string) option"
and parse_elements :: "nat \<Rightarrow> string \<Rightarrow> int json list \<Rightarrow> (int json \<times> string) option"
and parse_members :: "nat \<Rightarrow> string \<Rightarrow> (string \<times> int json) list \<Rightarrow> (int json \<times> string) option"
where
  "parse_value 0 cs = None"
| "parse_value (Suc n) cs =
     (case skip_ws cs of
        [] \<Rightarrow> None
      | c # r \<Rightarrow>
          if c = CHR ''{'' then
            (case skip_ws r of
               [] \<Rightarrow> None
             | d # r' \<Rightarrow> if d = CHR ''}'' then Some (JObj [], r') else parse_members n r [])
          else if c = CHR ''['' then
            (case skip_ws r of
               [] \<Rightarrow> None
             | d # r' \<Rightarrow> if d = CHR '']'' then Some (JArr [], r') else parse_elements n r [])
          else if c = CHR ''\"'' then
            (case parse_string r [] of None \<Rightarrow> None | Some (s, r') \<Rightarrow> Some (JStr s, r'))
          else if take 4 (c # r) = ''null'' then Some (JNull, drop 3 r)
          else if take 4 (c # r) = ''true'' then Some (JBool True, drop 3 r)
          else if take 5 (c # r) = ''false'' then Some (JBool False, drop 4 r)
          else (case parse_number (c # r) of None \<Rightarrow> None | Some (i, r') \<Rightarrow> Some (JNum i, r')))"
| "parse_elements 0 cs acc = None"
| "parse_elements (Suc n) cs acc =
     (case parse_value n cs of
        None \<Rightarrow> None
      | Some (v, r) \<Rightarrow>
          (case skip_ws r of
             [] \<Rightarrow> None
           | d # r' \<Rightarrow>
               if d = CHR '','' then parse_elements n r' (acc @ [v])
               else if d = CHR '']'' then Some (JArr (acc @ [v]), r')
               else None))"
| "parse_members 0 cs acc = None"
| "parse_members (Suc n) cs acc =
     (case skip_ws cs of
        [] \<Rightarrow> None
      | q # r \<Rightarrow>
          if q \<noteq> CHR ''\"'' then None
          else (case parse_string r [] of
                  None \<Rightarrow> None
                | Some (k, r1) \<Rightarrow>
                    (case skip_ws r1 of
                       [] \<Rightarrow> None
                     | colon # r2 \<Rightarrow>
                         if colon \<noteq> CHR '':'' then None
                         else (case parse_value n r2 of
                                 None \<Rightarrow> None
                               | Some (v, r3) \<Rightarrow>
                                   (case skip_ws r3 of
                                      [] \<Rightarrow> None
                                    | d # r4 \<Rightarrow>
                                        if d = CHR '','' then parse_members n r4 (put k v acc)
                                        else if d = CHR ''}'' then Some (JObj (put k v acc), r4)
                                        else None)))))"

definition json_parse :: "string \<Rightarrow> int json option" where
  "json_parse text =
     (case parse_value (Suc (length text)) text of
        None \<Rightarrow> None
      | Some (v, rest) \<Rightarrow> if skip_ws rest = [] then Some v else None)"

function nat_to_string :: "nat \<Rightarrow> string" where
  "nat_to_string n =
     (if n < 10 then [char_of (48 + n)] else nat_to_string (n div 10) @ [char_of (48 + n mod 10)])"
  by pat_completeness auto

termination
  by (relation "measure id") auto

declare nat_to_string.simps [simp del]

definition int_to_string :: "int \<Rightarrow> string" where
  "int_to_string i = (if i < 0 then CHR ''-'' # nat_to_string (nat (- i)) else nat_to_string (nat i))"

subsection \<open>\<open>node:path\<close> on POSIX\<close>

text \<open>
  \<open>path.normalize\<close>: empty segments and \<open>.\<close> are dropped, \<open>..\<close> removes the segment
  before it, and is kept at the front of a relative path; a trailing slash is kept.
\<close>

definition split_slash :: "string \<Rightarrow> string list" where
  "split_slash p = map rev (rev (foldl (\<lambda>segs c. if c = CHR ''/'' then [] # segs
      else (c # hd segs) # tl segs) [[]] p))"

fun resolve_dots :: "bool \<Rightarrow> string list \<Rightarrow> string list \<Rightarrow> string list" where
  "resolve_dots absolute [] acc = rev acc"
| "resolve_dots absolute (s # ss) acc =
     (if s = [] \<or> s = ''.'' then resolve_dots absolute ss acc
      else if s = ''..'' then
        (if acc \<noteq> [] \<and> hd acc \<noteq> ''..'' then resolve_dots absolute ss (tl acc)
         else if absolute then resolve_dots absolute ss acc
         else resolve_dots absolute ss (s # acc))
      else resolve_dots absolute ss (s # acc))"

fun join_slash :: "string list \<Rightarrow> string" where
  "join_slash [] = []"
| "join_slash [s] = s"
| "join_slash (s # t # ss) = s @ ''/'' @ join_slash (t # ss)"

definition posix_normalize :: "string \<Rightarrow> string" where
  "posix_normalize p =
     (if p = [] then ''.''
      else let absolute = (hd p = CHR ''/'');
               trailing = (last p = CHR ''/'');
               body = join_slash (resolve_dots absolute (split_slash p) [])
           in if body = [] then (if absolute then ''/'' else if trailing then ''./'' else ''.'')
              else (if absolute then ''/'' else []) @ body @ (if trailing then ''/'' else []))"

text \<open>\<open>path.join\<close> of two strings: the non-empty ones, joined by a slash and normalized.\<close>

definition posix_join :: "string \<Rightarrow> string \<Rightarrow> string" where
  "posix_join a b =
     (if a = [] then posix_normalize b
      else if b = [] then posix_normalize a
      else posix_normalize (a @ ''/'' @ b))"

text \<open>\<open>path.basename\<close>: the last segment, trailing slashes apart.\<close>

definition strip_trailing_slashes :: "string \<Rightarrow> string" where
  "strip_trailing_slashes p = rev (dropWhile (\<lambda>c. c = CHR ''/'') (rev p))"

definition posix_basename :: "string \<Rightarrow> string" where
  "posix_basename p = rev (takeWhile (\<lambda>c. c \<noteq> CHR ''/'') (rev (strip_trailing_slashes p)))"

text \<open>
  \<open>path.dirname\<close>: the path up to the slash before the last segment. The scan runs from
  the end down to the second character: \<open>end\<close> is the position of that slash.
\<close>

definition posix_dirname :: "string \<Rightarrow> string" where
  "posix_dirname p =
     (if p = [] then ''.''
      else let hasRoot = (hd p = CHR ''/'');
               scanned = dropWhile (\<lambda>c. c \<noteq> CHR ''/'') (dropWhile (\<lambda>c. c = CHR ''/'') (rev (tl p)));
               end = length scanned
           in if scanned = [] then (if hasRoot then ''/'' else ''.'')
              else if hasRoot \<and> end = 1 then ''//''
              else take end p)"

subsection \<open>CryptoJS\<close>

definition hex_value :: "char \<Rightarrow> nat" where
  "hex_value c =
     (let n = of_char c :: nat
      in if 48 \<le> n \<and> n \<le> 57 then n - 48
         else if 65 \<le> n \<and> n \<le> 70 then n - 55
         else if 97 \<le> n \<and> n \<le> 102 then n - 87
         else 0)"

fun hex_parse :: "string \<Rightarrow> u8 list" where
  "hex_parse (a # b # rest) = of_nat (16 * hex_value a + hex_value b) # hex_parse rest"
| "hex_parse rest = []"

definition word_bytes :: "32 word \<Rightarrow> int list" where
  "word_bytes w =
     [uint w div 16777216, uint w div 65536 mod 256, uint w div 256 mod 256, uint w mod 256]"

text \<open>
  \<open>CryptoJS.AES.decrypt\<close> in ECB mode with \<open>Pkcs7\<close>: the data are processed in whole
  blocks (a last partial block is filled with zero words), and the padding is removed
  without being checked: the low byte of the word that holds the last significant byte
  is subtracted from \<open>sigBytes\<close>. It does not throw.
\<close>

definition cryptojs_aes_decrypt :: "word_array \<Rightarrow> string \<Rightarrow> word_array option" where
  "cryptojs_aes_decrypt wa keyHex =
     (let n = nat (sigBytes wa);
          nBlocks = (n + 15) div 16;
          input = take (16 * nBlocks) (concat (map word_bytes (words wa)) @ replicate (16 * nBlocks) 0);
          plain = ecb_blocks (round_keys (map uint (hex_parse keyHex))) input;
          nPaddingBytes = (if n = 0 then 0 else plain ! (4 * ((n - 1) div 4) + 3))
      in Some \<lparr>words = pack_words (map word_of_int plain), sigBytes = int n - nPaddingBytes\<rparr>)"

subsection \<open>A file system\<close>

text \<open>
  Directories and regular files under their normalized absolute paths, without links,
  permissions or quota, for a process whose working directory is the root. A path that
  ends in a slash names no regular file. A file can be opened for writing when its
  directory exists and it is not itself a directory, and opening empties it; a write
  appends to the file; writing and closing do not fail.
\<close>

record posix_fs =
  directories :: "string set"
  contents :: "string \<rightharpoonup> u8 list"

definition posix_resolve :: "string \<Rightarrow> string" where
  "posix_resolve path = posix_normalize (if hd path = CHR ''/'' then path else CHR ''/'' # path)"

definition posix_readFileSync :: "posix_fs \<Rightarrow> string \<Rightarrow> u8 list option" where
  "posix_readFileSync files path =
     (let file = posix_resolve path
      in if path = [] \<or> last file = CHR ''/'' \<or> file \<in> directories files then None
         else contents files file)"

definition posix_openSync :: "posix_fs \<Rightarrow> string \<Rightarrow> posix_fs option" where
  "posix_openSync files path =
     (let file = posix_resolve path
      in if path = [] \<or> last file = CHR ''/'' \<or> file \<in> directories files \<or>
            posix_dirname file \<notin> directories files
         then None
         else Some (files\<lparr>contents := (contents files)(file \<mapsto> [])\<rparr>))"

definition posix_writeSync :: "posix_fs \<Rightarrow> string \<Rightarrow> u8 list \<Rightarrow> bool \<times> posix_fs" where
  "posix_writeSync files path bytes =
     (let file = posix_resolve path
      in (True, files\<lparr>contents := (contents files)
                        (file \<mapsto> (case contents files file of None \<Rightarrow> [] | Some old \<Rightarrow> old) @ bytes)\<rparr>))"

definition posix_closeSync :: "posix_fs \<Rightarrow> string \<Rightarrow> bool \<times> posix_fs" where
  "posix_closeSync files path = (True, files)"

subsection \<open>The two runtimes\<close>

definition node_runtime :: "(int, posix_fs) node_lib" where
  "node_runtime =
     \<lparr>utf8_decode = ascii_decode, JSON_parse = json_parse,
      number_falsy = (\<lambda>n. n = 0), number_toString = int_to_string,
      decipher_aes_128_ecb = openssl_aes_128_ecb_decrypt,
      buffer_from_base64 = node_base64_decode,
      path_basename = posix_basename, path_dirname = posix_dirname, path_join = posix_join,
      fs_readFileSync = posix_readFileSync, fs_openSync = posix_openSync,
      fs_writeSync = posix_writeSync, fs_closeSync = posix_closeSync\<rparr>"

definition browser_runtime :: "int browser_lib" where
  "browser_runtime =
     \<lparr>utf8_decode = ascii_decode, JSON_parse = json_parse,
      number_falsy = (\<lambda>n. n = 0), number_toString = int_to_string,
      CryptoJS_AES_decrypt = cryptojs_aes_decrypt, atob = atob_model\<rparr>"

section \<open>Container files\<close>

definition u32le :: "nat \<Rightarrow> u8 list" where
  "u32le n = [of_nat n, of_nat (n div 2 ^ 8), of_nat (n div 2 ^ 16), of_nat (n div 2 ^ 24)]"

definition ascii :: "string \<Rightarrow> u8 list" where
  "ascii s = map (\<lambda>c. of_nat (of_char c)) s"

definition key_block :: "u8 list" where
  "key_block =
     [44, 206, 213, 235, 105, 234, 251, 20, 85, 13, 69, 191, 97, 221, 23, 29,
      135, 17, 193, 143, 183, 4, 211, 109, 106, 161, 8, 87, 21, 39, 129, 17]"

definition container_head :: "u8 list" where
  "container_head = ascii ''CTENFDAM'' @ [0x01, 0x70] @ u32le 32 @ key_block"

definition meta_block :: "string \<Rightarrow> u8 list" where
  "meta_block base64 = xor_each 0x63 (ascii (''163 key(Don't modify):'' @ base64))"

definition container_tail :: "u8 list" where
  "container_tail = u32le 0 @ [0, 0, 0, 0, 0] @ u32le 2 @ [0xFF, 0xD8] @ [1, 2, 3, 4]"

definition container_flac :: "u8 list" where
  "container_flac =
     container_head @ u32le 66 @
     meta_block ''cEgtqHxwpdRKcBCRPBlPkmkYo8AjtkmzsrhGvscvhSI='' @ container_tail"

definition container_bad_base64 :: "u8 list" where
  "container_bad_base64 = container_head @ u32le 26 @ meta_block ''!!!!'' @ container_tail"

definition container_bad_json :: "u8 list" where
  "container_bad_json =
     container_head @ u32le 46 @ meta_block ''rR9AE6pXpexs0unPcAGlwg=='' @ container_tail"

definition container_key_cut :: "u8 list" where
  "container_key_cut = ascii ''CTENFDAM'' @ [0x01, 0x70] @ u32le 128 @ key_block"

definition container_key_cut3 :: "u8 list" where
  "container_key_cut3 = ascii ''CTENFDAM'' @ [0x01, 0x70] @ u32le 128 @ take 3 key_block"

definition container_meta_cut :: "u8 list" where
  "container_meta_cut =
     container_head @ u32le 1000 @ meta_block ''cEgtqHxwpdRKcBCRPBlPkmkYo8AjtkmzsrhGvscvhSI=''"

text \<open>A directory \<open>/music\<close> that holds one file.\<close>

definition music_dir :: "string \<Rightarrow> u8 list \<Rightarrow> posix_fs" where
  "music_dir name bytes =
     \<lparr>directories = {''/'', ''/music''}, contents = [''/music/'' @ name \<mapsto> bytes]\<rparr>"

definition derived_key :: "u8 list" where
  "derived_key = ascii ''E7fT49x7dof9OK''"

section \<open>The audio loops\<close>

lemma and_ff_mod: "and_ff n = n mod 256"
proof -
  have "n AND mask 8 = n mod 2 ^ 8"
    by (simp only: take_bit_eq_mask [symmetric] take_bit_eq_mod)
  then show ?thesis by (simp add: and_ff_def mask_eq_exp_minus_1)
qed

lemma and_ff_less: "and_ff n < 256"
  by (simp add: and_ff_mod)

lemma audio_loop_eq:
  "length audioOut = length audioIn \<Longrightarrow> i \<le> length audioIn \<Longrightarrow>
   audio_loop kb audioIn i audioOut =
     take i audioOut @ map (\<lambda>n. (audioIn ! n) XOR keystream kb n) [i..<length audioIn]"
proof (induction kb audioIn i audioOut rule: audio_loop.induct)
  case (1 kb audioIn i audioOut)
  show ?case
  proof (cases "i < length audioIn")
    case True
    let ?v = "(audioIn ! i) XOR (kb ! key_index kb (and_ff (i + 1)))"
    have ih: "audio_loop kb audioIn (i + 1) (audioOut[i := ?v]) =
          take (i + 1) (audioOut[i := ?v]) @
          map (\<lambda>n. (audioIn ! n) XOR keystream kb n) [i + 1..<length audioIn]"
      using "1.IH" [OF True] "1.prems" True by simp
    have tk: "take (i + 1) (audioOut[i := ?v]) = take i audioOut @ [?v]"
      using True "1.prems" by (simp add: take_Suc_conv_app_nth)
    have up: "[i..<length audioIn] = i # [i + 1..<length audioIn]"
      using True by (simp add: upt_conv_Cons)
    have "audio_loop kb audioIn i audioOut = audio_loop kb audioIn (i + 1) (audioOut[i := ?v])"
      using True by (subst audio_loop.simps) simp
    also have "\<dots> = take i audioOut @ map (\<lambda>n. (audioIn ! n) XOR keystream kb n) [i..<length audioIn]"
      unfolding ih tk up by (simp add: keystream_def)
    finally show ?thesis .
  next
    case False
    with "1.prems" show ?thesis by (subst audio_loop.simps) simp
  qed
qed

lemma decode_audio_eq:
  "decode_audio kb audioIn = map (\<lambda>n. (audioIn ! n) XOR keystream kb n) [0..<length audioIn]"
  by (simp add: decode_audio_def audio_loop_eq)

lemma length_decode_audio: "length (decode_audio kb audioIn) = length audioIn"
  by (simp add: decode_audio_eq)

lemma nth_decode_audio:
  "n < length audioIn \<Longrightarrow> decode_audio kb audioIn ! n = (audioIn ! n) XOR keystream kb n"
  by (simp add: decode_audio_eq)

lemma chunk_loop_eq:
  "1 \<le> i \<Longrightarrow> i \<le> length chunk + 1 \<Longrightarrow>
   chunk_loop kb i chunk =
     take (i - 1) chunk @ map (\<lambda>n. (chunk ! n) XOR keystream kb n) [i - 1..<length chunk]"
proof (induction kb i chunk rule: chunk_loop.induct)
  case (1 kb i chunk)
  show ?case
  proof (cases "i \<le> length chunk")
    case True
    let ?v = "(chunk ! (i - 1)) XOR (kb ! key_index kb (and_ff i))"
    let ?c = "chunk[i - 1 := ?v]"
    have ih: "chunk_loop kb (i + 1) ?c =
          take i ?c @ map (\<lambda>n. (?c ! n) XOR keystream kb n) [i..<length ?c]"
      using "1.IH" [OF True] "1.prems" True by simp
    have tk: "take i ?c = take (i - 1) chunk @ [?v]"
      using True "1.prems" take_Suc_conv_app_nth [of "i - 1" ?c] by simp
    have rest: "map (\<lambda>n. (?c ! n) XOR keystream kb n) [i..<length ?c] =
                map (\<lambda>n. (chunk ! n) XOR keystream kb n) [i..<length chunk]"
      using "1.prems" by (intro map_cong) auto
    have up: "[i - 1..<length chunk] = (i - 1) # [i..<length chunk]"
      using True "1.prems" upt_conv_Cons [of "i - 1" "length chunk"] by simp
    have "i - 1 + 1 = i"
      using "1.prems" by simp
    then have ks: "keystream kb (i - Suc 0) = kb ! key_index kb (and_ff i)"
      unfolding keystream_def by simp
    have "chunk_loop kb i chunk = chunk_loop kb (i + 1) ?c"
      using True by (subst chunk_loop.simps) simp
    also have "\<dots> = take (i - 1) chunk @ map (\<lambda>n. (chunk ! n) XOR keystream kb n) [i - 1..<length chunk]"
      unfolding ih tk rest up by (simp add: ks)
    finally show ?thesis .
  next
    case False
    with "1.prems" show ?thesis by (subst chunk_loop.simps) simp
  qed
qed

lemma decode_chunk_eq: "decode_chunk kb chunk = decode_audio kb chunk"
  by (simp add: decode_chunk_def chunk_loop_eq decode_audio_eq)

lemma keystream_shift: "256 dvd m \<Longrightarrow> keystream kb (m + n) = keystream kb n"
proof -
  assume "256 dvd m"
  then have "(m + n + 1) mod 256 = (n + 1) mod 256"
    by (metis add.assoc mod_add_self1 dvd_eq_mod_eq_0 mod_add_left_eq add_0)
  then show ?thesis by (simp add: keystream_def and_ff_mod)
qed

lemma decode_audio_take: "decode_audio kb (take m p) = take m (decode_audio kb p)"
  by (rule nth_equalityI) (simp_all add: length_decode_audio nth_decode_audio)

lemma decode_audio_drop:
  "256 dvd m \<Longrightarrow> decode_audio kb (drop m p) = drop m (decode_audio kb p)"
  by (rule nth_equalityI) (simp_all add: length_decode_audio nth_decode_audio keystream_shift)

lemma subarray_chunk:
  "pos < length data \<Longrightarrow>
   subarray data pos (min (pos + cs) (length data)) = take cs (drop pos data)"
  by (simp add: subarray_def min_def)

lemma write_chunks_eq:
  assumes cs: "0 < cs" "256 dvd cs"
  shows "write_chunks cs kb data pos written = Some (written @ decode_audio kb (drop pos data))"
proof (induction "length data - pos" arbitrary: pos written rule: less_induct)
  case less
  show ?case
  proof (cases "pos < length data")
    case True
    let ?rest = "drop pos data"
    have step: "write_chunks cs kb data pos written =
        write_chunks cs kb data (pos + cs) (written @ decode_chunk kb (take cs ?rest))"
      using True by (subst write_chunks.simps) (simp add: subarray_chunk Let_def)
    have "length data - (pos + cs) < length data - pos"
      using True cs by simp
    from less [OF this]
    have "write_chunks cs kb data (pos + cs) (written @ decode_chunk kb (take cs ?rest)) =
        Some ((written @ decode_chunk kb (take cs ?rest)) @ decode_audio kb (drop (pos + cs) data))" .
    also have "drop (pos + cs) data = drop cs ?rest"
      by (simp add: add.commute)
    also have "(written @ decode_chunk kb (take cs ?rest)) @ decode_audio kb (drop cs ?rest) =
        written @ decode_audio kb ?rest"
      unfolding decode_chunk_eq decode_audio_take decode_audio_drop [OF cs(2)]
      by (simp only: append_assoc append_take_drop_id)
    finally show ?thesis using step by simp
  next
    case False
    then show ?thesis
      by (subst write_chunks.simps) (simp add: decode_audio_eq)
  qed
qed

lemma write_chunks_total:
  assumes cs: "0 < cs"
  shows "\<exists>out. write_chunks cs kb data pos written = Some out"
proof (induction "length data - pos" arbitrary: pos written rule: less_induct)
  case less
  show ?case
  proof (cases "pos < length data")
    case True
    have "length data - (pos + cs) < length data - pos"
      using True cs by simp
    from less [OF this] show ?thesis
      using True by (subst write_chunks.simps) (simp add: Let_def)
  next
    case False
    then show ?thesis
      by (subst write_chunks.simps) simp
  qed
qed

lemma decode_audio_involution: "decode_audio kb (decode_audio kb p) = p"
  by (rule nth_equalityI) (simp_all add: length_decode_audio nth_decode_audio xor.assoc)

lemma init_nth: "k < 256 \<Longrightarrow> init_key_box ! k = of_nat k"
  by (simp add: init_key_box_def)

section \<open>The key box is a permutation\<close>

lemma ksa_step_length: "length (keyBox (ksa_step key i s)) = length (keyBox s)"
  by (simp add: ksa_step_def Let_def)

lemma ksa_step_c_less:
  "(case key_at key k of Some b \<Rightarrow> and_ff (x + l + b) | None \<Rightarrow> 0) < 256"
  by (simp add: and_ff_less split: option.split)

lemma ksa_step_mset:
  assumes "length (keyBox s) = 256" "i < 256"
  shows "mset (keyBox (ksa_step key i s)) = mset (keyBox s)"
proof -
  let ?kb = "keyBox s"
  let ?c = "case key_at key (keyOffset s) of
              Some k \<Rightarrow> and_ff (unat (?kb ! i) + lastByte s + k) | None \<Rightarrow> 0"
  have c: "?c < length ?kb"
    using assms ksa_step_c_less [where key = key and k = "keyOffset s"
        and x = "unat (?kb ! i)" and l = "lastByte s"] by simp
  have i: "i < length ?kb"
    using assms by simp
  have "keyBox (ksa_step key i s) = ?kb[i := ?kb ! ?c, ?c := ?kb ! i]"
    by (simp add: ksa_step_def Let_def)
  then show ?thesis
    using mset_swap [OF c i] by simp
qed

lemma ksa_loop_inv:
  "length (keyBox s) = 256 \<Longrightarrow>
   length (keyBox (ksa_loop key i s)) = 256 \<and> mset (keyBox (ksa_loop key i s)) = mset (keyBox s)"
proof (induction key i s rule: ksa_loop.induct)
  case (1 key i s)
  show ?case
  proof (cases "i < 256")
    case True
    have len: "length (keyBox (ksa_step key i s)) = 256"
      using "1.prems" by (simp add: ksa_step_length)
    have "ksa_loop key i s = ksa_loop key (i + 1) (ksa_step key i s)"
      using True by (subst ksa_loop.simps) simp
    then show ?thesis
      using "1.IH" [OF True len] ksa_step_mset [OF "1.prems" True] by simp
  next
    case False
    then show ?thesis
      using "1.prems" by (subst ksa_loop.simps, subst (2) ksa_loop.simps) simp
  qed
qed

lemma length_init_key_box: "length init_key_box = 256"
  by (simp add: init_key_box_def)

lemma length_build_key_box: "length (build_key_box key) = 256"
  using ksa_loop_inv [of "\<lparr>keyBox = init_key_box, lastByte = 0, keyOffset = 0\<rparr>" key 0]
  by (simp add: build_key_box_def length_init_key_box)

lemma mset_build_key_box: "mset (build_key_box key) = mset init_key_box"
  using ksa_loop_inv [of "\<lparr>keyBox = init_key_box, lastByte = 0, keyOffset = 0\<rparr>" key 0]
  by (simp add: build_key_box_def length_init_key_box)

lemma unat_init_key_box: "map unat init_key_box = [0..<256]"
proof (rule nth_equalityI)
  show "length (map unat init_key_box) = length [0..<256]"
    by (simp add: init_key_box_def)
next
  fix k assume "k < length (map unat init_key_box)"
  then have k: "k < 256" by (simp add: init_key_box_def)
  then have "unat (of_nat k :: u8) = k"
    by (simp add: unat_of_nat)
  then show "map unat init_key_box ! k = [0..<256] ! k"
    using k by (simp add: init_key_box_def)
qed

lemma distinct_init_key_box: "distinct init_key_box"
proof -
  have "distinct (map unat init_key_box)"
    by (simp only: unat_init_key_box distinct_upt)
  then show ?thesis by (simp add: distinct_map)
qed

lemma set_init_key_box: "set init_key_box = UNIV"
proof -
  have "card (set init_key_box) = 256"
    using distinct_card [OF distinct_init_key_box] by (simp add: length_init_key_box)
  moreover have "card (UNIV :: u8 set) = 256"
    by (simp add: card_word)
  ultimately show ?thesis
    by (intro card_subset_eq) simp_all
qed

lemma build_key_box_perm:
  "length (build_key_box key) = 256 \<and> distinct (build_key_box key) \<and>
   set (build_key_box key) = UNIV \<and> sort (map unat (build_key_box key)) = [0..<256]"
proof -
  have d: "distinct (build_key_box key)"
    using mset_eq_imp_distinct_iff [OF mset_build_key_box] distinct_init_key_box by blast
  have s: "set (build_key_box key) = UNIV"
    using mset_eq_setD [OF mset_build_key_box] set_init_key_box by simp
  have "mset (map unat (build_key_box key)) = mset [0..<256]"
    using mset_build_key_box [of key] unat_init_key_box
    by (metis mset_map)
  then have "sort (map unat (build_key_box key)) = [0..<256]"
    by (intro properties_for_sort) simp_all
  with d s length_build_key_box show ?thesis by simp
qed

lemma rot_box_0: "rot_box 0 = init_key_box"
  by (simp add: rot_box_def init_key_box_def)

lemma rot_box_step:
  assumes "i < 256"
  shows "ksa_step [] i \<lparr>keyBox = rot_box i, lastByte = 0, keyOffset = 0\<rparr> =
         \<lparr>keyBox = rot_box (i + 1), lastByte = 0, keyOffset = 0\<rparr>"
proof -
  have "(rot_box i)[i := rot_box i ! 0, 0 := rot_box i ! i] = rot_box (i + 1)"
  proof (rule nth_equalityI)
    show "length ((rot_box i)[i := rot_box i ! 0, 0 := rot_box i ! i]) = length (rot_box (i + 1))"
      by (simp add: rot_box_def)
  next
    fix k assume "k < length ((rot_box i)[i := rot_box i ! 0, 0 := rot_box i ! i])"
    then have k: "k < 256" by (simp add: rot_box_def)
    show "(rot_box i)[i := rot_box i ! 0, 0 := rot_box i ! i] ! k = rot_box (i + 1) ! k"
      using k assms by (auto simp: rot_box_def nth_list_update)
  qed
  then show ?thesis
    by (simp add: ksa_step_def key_at_def Let_def)
qed

lemma ksa_loop_empty:
  "i \<le> 256 \<Longrightarrow> s = \<lparr>keyBox = rot_box i, lastByte = 0, keyOffset = 0\<rparr> \<Longrightarrow>
   ksa_loop [] i s = \<lparr>keyBox = rot_box 256, lastByte = 0, keyOffset = 0\<rparr>"
proof (induction "[] :: u8 list" i s rule: ksa_loop.induct)
  case (1 i s)
  show ?case
  proof (cases "i < 256")
    case True
    have "ksa_loop [] i s = ksa_loop [] (i + 1) (ksa_step [] i s)"
      using True by (subst ksa_loop.simps) simp
    also have "\<dots> = \<lparr>keyBox = rot_box 256, lastByte = 0, keyOffset = 0\<rparr>"
      using "1.hyps" [OF True] True rot_box_step [OF True] "1.prems" by simp
    finally show ?thesis .
  next
    case False
    with "1.prems" have "i = 256" by simp
    then show ?thesis
      using "1.prems" by (subst ksa_loop.simps) simp
  qed
qed

lemma rot_box_256: "rot_box 256 = 255 # map of_nat [0..<255]"
proof (rule nth_equalityI)
  show "length (rot_box 256) = length (255 # map of_nat [0..<255] :: u8 list)"
    by (simp add: rot_box_def)
next
  fix k assume "k < length (rot_box 256)"
  then have k: "k < 256" by (simp add: rot_box_def)
  show "rot_box 256 ! k = (255 # map of_nat [0..<255] :: u8 list) ! k"
    using k by (cases k) (simp_all add: rot_box_def)
qed

lemma build_key_box_empty: "build_key_box [] = 255 # map of_nat [0..<255]"
  using ksa_loop_empty [of 0 "\<lparr>keyBox = init_key_box, lastByte = 0, keyOffset = 0\<rparr>"]
  by (simp add: build_key_box_def rot_box_0 rot_box_256)

section \<open>The stages of the two decoders\<close>

lemma hex_digit_inj:
  "a < 16 \<Longrightarrow> b < 16 \<Longrightarrow> hex_digit a = hex_digit b \<Longrightarrow> a = b"
proof -
  assume a: "a < 16" and b: "b < 16" and e: "hex_digit a = hex_digit b"
  have d: "distinct ''0123456789abcdef''" by simp
  have l: "length ''0123456789abcdef'' = 16" by simp
  from e have "''0123456789abcdef'' ! a = ''0123456789abcdef'' ! b"
    by (simp only: hex_digit_def)
  with d a b l show "a = b"
    by (simp only: nth_eq_iff_index_eq)
qed

lemma hex_byte_inj:
  assumes "hex_digit (unat a div 16) = hex_digit (unat b div 16)"
      and "hex_digit (unat a mod 16) = hex_digit (unat b mod 16)"
  shows "a = (b :: u8)"
proof -
  have la: "unat a < 256" and lb: "unat b < 256"
    using unsigned_less [of a, where 'a = nat] unsigned_less [of b, where 'a = nat] by simp_all
  have "unat a div 16 = unat b div 16"
    using la lb assms(1) by (intro hex_digit_inj) simp_all
  moreover have "unat a mod 16 = unat b mod 16"
    using assms(2) by (intro hex_digit_inj) simp_all
  ultimately have "unat a = unat b"
    by (metis div_mult_mod_eq)
  then show ?thesis by (simp only: word_unat_eq_iff)
qed

lemma to_hex_inj: "to_hex a = to_hex b \<Longrightarrow> a = b"
proof (induction a arbitrary: b)
  case Nil
  then show ?case by (cases b) (simp_all add: to_hex_def)
next
  case (Cons x xs)
  then show ?case
    by (cases b) (auto simp: to_hex_def dest: hex_byte_inj)
qed

lemma to_hex_expected: "to_hex expected = ''4354454e4644414d''"
  by (simp add: to_hex_def expected_def hex_digit_def)

lemma subarray_0: "subarray xs 0 n = take n xs"
  by (simp add: subarray_def min_def)

lemma dump_header_eq:
  "dump_header data = (if take 8 data = expected then Inr 8 else Inl InvalidHeader)"
proof -
  have "to_hex (take 8 data) = ''4354454e4644414d'' \<longleftrightarrow> take 8 data = expected"
    using to_hex_inj [of "take 8 data" expected] to_hex_expected by auto
  then show ?thesis
    by (simp add: dump_header_def subarray_0)
qed

lemma dumpNcm_header_eq:
  "dumpNcm_header bytes = (if take 8 bytes = expected then Inr 8 else Inl InvalidHeader)"
proof -
  have "(\<forall>i \<in> set [0..<8]. byte_at bytes i = Some (expected ! i)) \<longleftrightarrow> take 8 bytes = expected"
  proof
    assume a: "\<forall>i \<in> set [0..<8]. byte_at bytes i = Some (expected ! i)"
    then have "byte_at bytes 7 = Some (expected ! 7)" by simp
    then have len: "8 \<le> length bytes"
      by (simp add: byte_at_def split: if_splits)
    show "take 8 bytes = expected"
    proof (rule nth_equalityI)
      show "length (take 8 bytes) = length expected"
        using len by (simp add: expected_def)
    next
      fix i assume "i < length (take 8 bytes)"
      then have i: "i < 8" by simp
      with a have "byte_at bytes i = Some (expected ! i)" by simp
      with i len show "take 8 bytes ! i = expected ! i"
        by (simp add: byte_at_def)
    qed
  next
    assume e: "take 8 bytes = expected"
    then have "length (take 8 bytes) = 8" by (simp add: expected_def)
    then have len: "8 \<le> length bytes" by simp
    show "\<forall>i \<in> set [0..<8]. byte_at bytes i = Some (expected ! i)"
    proof
      fix i assume "i \<in> set [0..<8]"
      then have i: "i < 8" by simp
      then have "take 8 bytes ! i = bytes ! i" by simp
      with e i len show "byte_at bytes i = Some (expected ! i)"
        by (simp add: byte_at_def)
    qed
  qed
  then show ?thesis
    unfolding dumpNcm_header_def by auto
qed

lemma dump_parse_bad_header:
  "take 8 data \<noteq> expected \<Longrightarrow> dump_parse lib data = Inl InvalidHeader"
  by (simp add: dump_parse_def dump_header_eq)

lemma dumpNcm_parse_bad_header:
  "take 8 bytes \<noteq> expected \<Longrightarrow> dumpNcm_parse lib bytes = Inl InvalidHeader"
  by (simp add: dumpNcm_parse_def dumpNcm_header_eq)

lemma dump_meta_failure:
  assumes "fs_readFileSync lib files filePath = Some data"
      and "dump_header data = Inr h"
      and "dump_key_data lib data (h + 2) = Inr (k, off)"
      and "dump_meta_data lib data off = Inl e"
  shows "dump lib files filePath = Some (Inl e, files)"
  using assms by (simp add: dump_def dump_parse_def)

lemma dumpNcm_meta_failure:
  assumes "dumpNcm_header bytes = Inr h"
      and "dumpNcm_key_data lib bytes (h + 2) = Inr (k, off)"
      and "dumpNcm_meta_data lib bytes off = Inl e"
  shows "dumpNcm lib bytes name = Inl e"
  using assms by (simp add: dumpNcm_def dumpNcm_parse_def)

lemma subarray_clamped:
  "length xs \<le> start + n \<Longrightarrow> subarray xs start (start + n) = drop start xs"
  by (simp add: subarray_def min_def)

lemma readUInt32LE_past_end:
  "length data < offset + 4 \<Longrightarrow> readUInt32LE data offset = Inl RangeError"
  by (simp add: readUInt32LE_def)

lemma readUInt32LE_Inr_length:
  "readUInt32LE data offset = Inr v \<Longrightarrow> offset + 4 \<le> length data"
  by (simp add: readUInt32LE_def split: if_splits)

lemma dump_meta_data_past_end:
  "length data < offset + 4 \<Longrightarrow> dump_meta_data lib data offset = Inl RangeError"
  by (simp add: dump_meta_data_def readUInt32LE_past_end)

lemma dumpNcm_meta_data_past_end:
  "length data < offset + 4 \<Longrightarrow> dumpNcm_meta_data lib data offset = Inl RangeError"
  by (simp add: dumpNcm_meta_data_def readUInt32LE_past_end)

lemma skip_image_past_end:
  "length data < offset + 4 \<Longrightarrow> skip_image data offset = Inl RangeError"
  by (simp add: skip_image_def readUInt32LE_past_end)

lemma dump_oversized_key:
  assumes f: "fs_readFileSync lib files filePath = Some data"
      and h: "take 8 data = expected"
      and r: "readUInt32LE data 10 = Inr keyLength"
      and big: "length data - 14 < keyLength"
  shows "dump lib files filePath =
           Some (Inl (if decipher_aes_128_ecb lib coreKey (xor_each 0x64 (drop 14 data)) = None
                      then CipherError else RangeError), files)"
proof -
  have len: "14 \<le> length data"
    using readUInt32LE_Inr_length [OF r] by simp
  have sub: "subarray data 14 (14 + keyLength) = drop 14 data"
    using big len by (intro subarray_clamped) simp
  have past: "length data < 14 + keyLength + 4"
    using big len by simp
  show ?thesis
  proof (cases "decipher_aes_128_ecb lib coreKey (xor_each 0x64 (drop 14 data))")
    case None
    then show ?thesis
      using f h r sub by (simp add: dump_def dump_parse_def dump_header_eq dump_key_data_def)
  next
    case (Some plain)
    then have "dump_key_data lib data 10 = Inr (drop 17 plain, 14 + keyLength)"
      using r sub by (simp add: dump_key_data_def)
    then show ?thesis
      using f h Some dump_meta_data_past_end [OF past, of lib]
      by (simp add: dump_def dump_parse_def dump_header_eq)
  qed
qed

lemma dump_oversized_meta:
  assumes f: "fs_readFileSync lib files filePath = Some data"
      and h: "take 8 data = expected"
      and k: "dump_key_data lib data 10 = Inr (key, off)"
      and r: "readUInt32LE data off = Inr metaLength"
      and big: "length data - (off + 4) < metaLength"
  shows "dump lib files filePath =
           Some (Inl (case dump_meta_data lib data off of Inl e \<Rightarrow> e | Inr v \<Rightarrow> RangeError), files)"
proof (cases "dump_meta_data lib data off")
  case (Inl e)
  then show ?thesis
    using f h k by (simp add: dump_def dump_parse_def dump_header_eq)
next
  case (Inr v)
  obtain metaJson off' where v: "v = (metaJson, off')" by (cases v)
  have off': "off' = off + 4 + metaLength"
    using Inr r unfolding v dump_meta_data_def
    by (simp add: Let_def split: option.splits)
  have len: "off + 4 \<le> length data"
    using readUInt32LE_Inr_length [OF r] .
  have "length data < off' + 4"
    using big len off' by simp
  from skip_image_past_end [OF this] show ?thesis
    using f h k Inr v by (simp add: dump_def dump_parse_def dump_header_eq)
qed

lemma dumpNcm_oversized_key:
  assumes h: "take 8 bytes = expected"
      and r: "readUInt32LE bytes 10 = Inr keyLength"
      and big: "length bytes - 14 < keyLength"
  shows "dumpNcm lib bytes name =
           Inl (case aes128EcbDecrypt lib (xor_each 0x64 (drop 14 bytes)) CORE_KEY_HEX of
                  Inl e \<Rightarrow> e | Inr plain \<Rightarrow> RangeError)"
proof -
  have len: "14 \<le> length bytes"
    using readUInt32LE_Inr_length [OF r] by simp
  have sub: "subarray bytes 14 (14 + keyLength) = drop 14 bytes"
    using big len by (intro subarray_clamped) simp
  have past: "length bytes < 14 + keyLength + 4"
    using big len by simp
  show ?thesis
  proof (cases "aes128EcbDecrypt lib (xor_each 0x64 (drop 14 bytes)) CORE_KEY_HEX")
    case (Inl e)
    then show ?thesis
      using h r sub by (simp add: dumpNcm_def dumpNcm_parse_def dumpNcm_header_eq dumpNcm_key_data_def)
  next
    case (Inr plain)
    then have "dumpNcm_key_data lib bytes 10 = Inr (drop 17 plain, 14 + keyLength)"
      using r sub by (simp add: dumpNcm_key_data_def)
    then show ?thesis
      using h Inr dumpNcm_meta_data_past_end [OF past, of lib]
      by (simp add: dumpNcm_def dumpNcm_parse_def dumpNcm_header_eq)
  qed
qed

lemma dumpNcm_meta_data_offset:
  "dumpNcm_meta_data lib bytes off = Inr (metaJson, off') \<Longrightarrow>
   readUInt32LE bytes off = Inr metaLength \<Longrightarrow> off' = off + 4 + metaLength"
  unfolding dumpNcm_meta_data_def
  by (simp add: Let_def split: option.splits sum.splits)

lemma dumpNcm_oversized_meta:
  assumes h: "take 8 bytes = expected"
      and k: "dumpNcm_key_data lib bytes 10 = Inr (key, off)"
      and r: "readUInt32LE bytes off = Inr metaLength"
      and big: "length bytes - (off + 4) < metaLength"
  shows "dumpNcm lib bytes name =
           Inl (case dumpNcm_meta_data lib bytes off of Inl e \<Rightarrow> e | Inr v \<Rightarrow> RangeError)"
proof (cases "dumpNcm_meta_data lib bytes off")
  case (Inl e)
  then show ?thesis
    using h k by (simp add: dumpNcm_def dumpNcm_parse_def dumpNcm_header_eq)
next
  case (Inr v)
  obtain metaJson off' where v: "v = (metaJson, off')" by (cases v)
  have off': "off' = off + 4 + metaLength"
    using Inr r unfolding v by (rule dumpNcm_meta_data_offset)
  have len: "off + 4 \<le> length bytes"
    using readUInt32LE_Inr_length [OF r] .
  have "length bytes < off' + 4"
    using big len off' by simp
  from skip_image_past_end [OF this] show ?thesis
    using h k Inr v by (simp add: dumpNcm_def dumpNcm_parse_def dumpNcm_header_eq)
qed





lemma write_chunks_CHUNK:
  "write_chunks CHUNK kb data offset [] = Some (decode_audio kb (drop offset data))"
  using write_chunks_eq [of CHUNK kb data offset "[]"] by (simp add: CHUNK_def)


lemma write_loop_total:
  "\<exists>r. write_loop lib kb data outPath pos files = Some r"
proof (induction "length data - pos" arbitrary: pos files rule: less_induct)
  case less
  show ?case
  proof (cases "pos < length data")
    case True
    have "length data - (pos + CHUNK) < length data - pos"
      using True by (simp add: CHUNK_def)
    from less [OF this] show ?thesis
      using True by (subst write_loop.simps) (auto simp: Let_def split: prod.splits)
  next
    case False
    then show ?thesis
      by (subst write_loop.simps) auto
  qed
qed

lemma dump_returns: "\<exists>r. dump lib files filePath = Some r"
proof -
  have "\<exists>r. (case write_loop lib kb data outPath pos opened of
               None \<Rightarrow> None
             | Some (written, files') \<Rightarrow>
                 (let (closed, files'') = fs_closeSync lib files' outPath
                  in if written \<and> closed then Some (Inr outPath, files'')
                     else Some (Inl SystemError, files''))) = Some r"
    for kb data outPath pos opened
    using write_loop_total [of lib kb data outPath pos opened]
    by (auto simp: Let_def split: prod.splits)
  then show ?thesis
    unfolding dump_def by (simp split: option.splits sum.splits prod.splits)
qed


lemma dump_success:
  assumes "fs_readFileSync lib files filePath = Some data"
      and "dump_parse lib data = Inr (kb, metaJson, offset)"
      and "dump_format lib metaJson = Inr fmt"
      and "dump_outPath lib filePath fmt = Inr outPath"
      and "fs_openSync lib files outPath = Some opened"
      and "write_loop lib kb data outPath offset opened = Some (True, written)"
      and "fs_closeSync lib written outPath = (True, files')"
  shows "dump lib files filePath = Some (Inr outPath, files')"
  using assms by (simp add: dump_def)

lemma dump_open_failure:
  assumes "fs_readFileSync lib files filePath = Some data"
      and "dump_parse lib data = Inr (kb, metaJson, offset)"
      and "dump_format lib metaJson = Inr fmt"
      and "dump_outPath lib filePath fmt = Inr outPath"
      and "fs_openSync lib files outPath = None"
  shows "dump lib files filePath = Some (Inl SystemError, files)"
  using assms by (simp add: dump_def)

lemma js_toString_own_toString:
  "js_toString lib (JObj [(''toString'', v)]) = Inl TypeError"
  "js_toString lib (JArr [JObj [(''toString'', v)]]) = Inl TypeError"
  "js_toString lib (JObj [(''valueOf'', v)]) = Inr ''[object Object]''"
  "js_toString lib (JArr [JNull, JStr ''a'', JArr [JBool True, JNull]]) = Inr '',a,true,''"
  by simp_all

lemma dumpNcm_success:
  assumes "dumpNcm_parse lib bytes = Inr (kb, metaJson, offset)"
      and "dumpNcm_format lib metaJson = Inr fmt"
  shows "dumpNcm lib bytes name =
           Inr \<lparr>blob = \<lparr>blob_bytes = decode_audio kb (drop offset bytes),
                         blob_type = mimeFromFormat fmt\<rparr>,
                filename = dumpNcm_base name @ ''.'' @ fmt, format = fmt, meta = metaJson\<rparr>"
  using assms by (simp add: dumpNcm_def Let_def)

lemma format_string:
  assumes "get_format metaJson = Inr (Some (JStr s))" "s \<noteq> []"
  shows "dump_format nlib metaJson = Inr (JStr s)" "dumpNcm_format blib metaJson = Inr (toLowerCase s)"
  using assms by (simp_all add: dump_format_def dumpNcm_format_def or_mp3_def)

lemma dump_outPath_string:
  "dump_outPath lib filePath (JStr s) =
     Inr (path_join lib (path_dirname lib filePath) (strip_ncm (path_basename lib filePath) @ ''.'' @ s))"
  by (simp add: dump_outPath_def dump_outFileName_def)

section \<open>Evaluating the reference models\<close>

lemmas aes_eval = inv_cipher_def round_keys_def next_round_key_def xor_bytes_def sub_byte_def
  inv_sub_byte_def aes_sbox_def aes_inv_sbox_def Let_def inv_shift_rows_def
  xtime_def gmul9_def gmul11_def gmul13_def gmul14_def ecb_blocks.simps

lemma fips197_example:
  "inv_cipher (round_keys [0,1,2,3,4,5,6,7,8,9,10,11,12,13,14,15])
     [0x69,0xc4,0xe0,0xd8,0x6a,0x7b,0x04,0x30,0xd8,0xcd,0xb7,0x80,0x70,0xb4,0xc5,0x5a]
   = [0x00,0x11,0x22,0x33,0x44,0x55,0x66,0x77,0x88,0x99,0xaa,0xbb,0xcc,0xdd,0xee,0xff]"
  by (simp add: aes_eval)

lemma ecb_key_block:
  "ecb_blocks (round_keys (map uint coreKey))
     [72, 170, 177, 143, 13, 142, 159, 112, 49, 105, 33, 219, 5, 185, 115, 121, 227, 117, 165, 235, 211, 96, 183, 9, 14, 197, 108, 51, 113, 67, 229, 117]
   = [110, 101, 116, 101, 97, 115, 101, 99, 108, 111, 117, 100, 109, 117, 115, 105, 99, 69, 55, 102, 84, 52, 57, 120, 55, 100, 111, 102, 57, 79, 75, 1]"
  by (simp add: coreKey_def aes_eval)

lemma ecb_meta_flac:
  "ecb_blocks (round_keys (map uint metaKey))
     [112, 72, 45, 168, 124, 112, 165, 212, 74, 112, 16, 145, 60, 25, 79, 146, 105, 24, 163, 192, 35, 182, 73, 179, 178, 184, 70, 190, 199, 47, 133, 34]
   = [109, 117, 115, 105, 99, 58, 123, 34, 102, 111, 114, 109, 97, 116, 34, 58, 34, 70, 76, 65, 67, 34, 125, 9, 9, 9, 9, 9, 9, 9, 9, 9]"
  by (simp add: metaKey_def aes_eval)

lemma ecb_meta_brace:
  "ecb_blocks (round_keys (map uint metaKey))
     [173, 31, 64, 19, 170, 87, 165, 236, 108, 210, 233, 207, 112, 1, 165, 194]
   = [109, 117, 115, 105, 99, 58, 123, 9, 9, 9, 9, 9, 9, 9, 9, 9]"
  by (simp add: metaKey_def aes_eval)

lemma key_block_plain:
  "openssl_aes_128_ecb_decrypt coreKey
     [72, 170, 177, 143, 13, 142, 159, 112, 49, 105, 33, 219, 5, 185, 115, 121, 227, 117, 165, 235, 211, 96, 183, 9, 14, 197, 108, 51, 113, 67, 229, 117]
   = Some [110, 101, 116, 101, 97, 115, 101, 99, 108, 111, 117, 100, 109, 117, 115, 105, 99, 69, 55, 102, 84, 52, 57, 120, 55, 100, 111, 102, 57, 79, 75]"
  by (simp add: openssl_aes_128_ecb_decrypt_def ecb_key_block pkcs7_unpad_def)

lemma json_parse_example: "json_parse '' { \"a\" : [1, -20, true, null, \"xy\"], \"format\": \"mp3\", \"a\": {} } '' =
   Some (JObj [(''a'', JObj []), (''format'', JStr ''mp3'')])"
  by (simp add: json_parse_def skip_ws_def json_ws_def parse_number_def is_digit_def digits_value_def unescape_def)

lemma posix_path_examples:
  "posix_basename ''/music/track.ncm'' = ''track.ncm''"
  "posix_basename ''a/b/'' = ''b''" "posix_basename ''/'' = []" "posix_basename [] = []"
  "posix_dirname ''/music/track.ncm'' = ''/music''"
  "posix_dirname ''track.ncm'' = ''.''" "posix_dirname ''/a'' = ''/''" "posix_dirname ''//a'' = ''//''"
  "posix_dirname ''a//b'' = ''a/''" "posix_dirname ''a/b/'' = ''a''" "posix_dirname ''a/'' = ''.''"
  "posix_dirname ''/'' = ''/''" "posix_dirname ''//'' = ''/''" "posix_dirname [] = ''.''"
  "posix_dirname ''/a/b/c'' = ''/a/b''"
  "posix_join ''/music'' ''track.FLAC'' = ''/music/track.FLAC''"
  "posix_join ''.'' ''track.mp3'' = ''track.mp3''"
  "posix_join ''/music'' ''track.a/b'' = ''/music/track.a/b''"
  "posix_join ''/music'' ''track.../x'' = ''/music/track.../x''"
  "posix_join ''/music'' ''t./../x'' = ''/music/x''"
  "posix_join ''.'' ''./'' = ''./''"
  "posix_join ''a'' ''../../b/'' = ''../b/''"
  "posix_join ''/'' ''../x'' = ''/x''"
  "posix_join [] [] = ''.''"
  "posix_normalize ''/..'' = ''/''" "posix_normalize ''a/..'' = ''.''" "posix_normalize ''a/../'' = ''./''"
  "posix_normalize ''//a//b/./c/'' = ''/a/b/c/''"
  by (simp_all add: posix_basename_def posix_dirname_def posix_join_def posix_normalize_def
      strip_trailing_slashes_def split_slash_def Let_def)

lemma int_to_string_examples: "int_to_string 1230 = ''1230'' \<and> int_to_string (-7) = ''-7'' \<and> int_to_string 0 = ''0''"
  by (simp add: int_to_string_def nat_to_string.simps char_of_def bit_Suc_0_iff)

lemma toLowerCase_examples: "toLowerCase ''FLAC'' = ''flac'' \<and> toLowerCase ''Mp3'' = ''mp3''"
  by (simp add: toLowerCase_def lower_char_def char_of_def bit_Suc_0_iff)

lemma strip_ncm_examples: "strip_ncm ''track.ncm'' = ''track'' \<and> strip_ncm ''Track.NCM'' = ''Track'' \<and> strip_ncm ''a.mp3'' = ''a.mp3'' \<and> strip_ncm ''ncm'' = ''ncm''"
  by (simp add: strip_ncm_def ends_with_ncm_def)

lemmas char_eval = char_of_def bit_Suc_0_iff

lemma xor_key_block:
  "xor_each 0x64 key_block = [72, 170, 177, 143, 13, 142, 159, 112, 49, 105, 33, 219, 5, 185, 115, 121, 227, 117, 165, 235, 211, 96, 183, 9, 14, 197, 108, 51, 113, 67, 229, 117]"
  by (simp add: key_block_def xor_each_def)

lemma node_key_data:
  "dump_key_data node_runtime (container_head @ rest) 10 = Inr (derived_key, 46)"
proof -
  have r: "readUInt32LE (container_head @ rest) 10 = Inr 32"
    by (simp add: readUInt32LE_def container_head_def ascii_def u32le_def key_block_def)
  have s: "subarray (container_head @ rest) 14 46 = key_block"
    by (simp add: subarray_def container_head_def ascii_def u32le_def key_block_def)
  show ?thesis
    by (simp add: dump_key_data_def r s xor_key_block node_runtime_def key_block_plain
        derived_key_def ascii_def)
qed

lemma hex_parse_keys: "hex_parse CORE_KEY_HEX = coreKey" "hex_parse META_KEY_HEX = metaKey"
  by (simp_all add: CORE_KEY_HEX_def META_KEY_HEX_def coreKey_def metaKey_def hex_value_def)

lemma upt_31: "[0..<31] = [0, 1, 2, 3, 4, 5, 6, 7, 8, 9, 10, 11, 12, 13, 14, 15, 16, 17, 18, 19, 20, 21, 22, 23, 24, 25, 26, 27, 28, 29, 30]"
  by (simp add: upt_rec)

lemma upt_23: "[0..<23] = [0, 1, 2, 3, 4, 5, 6, 7, 8, 9, 10, 11, 12, 13, 14, 15, 16, 17, 18, 19, 20, 21, 22]"
  by (simp add: upt_rec)

lemma upt_7: "[0..<7] = [0, 1, 2, 3, 4, 5, 6]"
  by (simp add: upt_rec)

lemmas cryptojs_eval = aes128EcbDecrypt_def browser_runtime_def u8ToWordArray_def
  cryptojs_aes_decrypt_def hex_parse_keys word_bytes_def wordArrayToU8_def word_at_def
  pack_word_def ascii_def

lemma browser_decrypt_key:
  "aes128EcbDecrypt browser_runtime (xor_each 0x64 key_block) CORE_KEY_HEX =
     Inr (ascii ''neteasecloudmusicE7fT49x7dof9OK'')"
  by (simp add: cryptojs_eval xor_key_block ecb_key_block upt_31)

lemma browser_decrypt_flac:
  "aes128EcbDecrypt browser_runtime [112, 72, 45, 168, 124, 112, 165, 212, 74, 112, 16, 145, 60, 25, 79, 146, 105, 24, 163, 192, 35, 182, 73, 179, 178, 184, 70, 190, 199, 47, 133, 34] META_KEY_HEX =
     Inr (ascii ''music:{\"format\":\"FLAC\"}'')"
  by (simp add: cryptojs_eval ecb_meta_flac upt_23)

lemma browser_decrypt_brace:
  "aes128EcbDecrypt browser_runtime [173, 31, 64, 19, 170, 87, 165, 236, 108, 210, 233, 207, 112, 1, 165, 194] META_KEY_HEX =
     Inr (ascii ''music:{'')"
  by (simp add: cryptojs_eval ecb_meta_brace upt_7)

lemma node_decrypt_flac:
  "openssl_aes_128_ecb_decrypt metaKey [112, 72, 45, 168, 124, 112, 165, 212, 74, 112, 16, 145, 60, 25, 79, 146, 105, 24, 163, 192, 35, 182, 73, 179, 178, 184, 70, 190, 199, 47, 133, 34] =
     Some (ascii ''music:{\"format\":\"FLAC\"}'')"
  by (simp add: openssl_aes_128_ecb_decrypt_def ecb_meta_flac pkcs7_unpad_def ascii_def)

lemma node_decrypt_brace:
  "openssl_aes_128_ecb_decrypt metaKey [173, 31, 64, 19, 170, 87, 165, 236, 108, 210, 233, 207, 112, 1, 165, 194] =
     Some (ascii ''music:{'')"
  by (simp add: openssl_aes_128_ecb_decrypt_def ecb_meta_brace pkcs7_unpad_def ascii_def)

lemma node_decrypt_bad_length:
  "length ct mod 16 \<noteq> 0 \<or> ct = [] \<Longrightarrow> openssl_aes_128_ecb_decrypt key ct = None"
  by (auto simp: openssl_aes_128_ecb_decrypt_def)

lemmas b64_eval = node_base64_decode_def b64_index_node_def atob_model_def strip_padding_def
  ascii_whitespace_def b64_index_def List.map_filter_simps

lemma base64_flac:
  "node_base64_decode ''cEgtqHxwpdRKcBCRPBlPkmkYo8AjtkmzsrhGvscvhSI='' = [112, 72, 45, 168, 124, 112, 165, 212, 74, 112, 16, 145, 60, 25, 79, 146, 105, 24, 163, 192, 35, 182, 73, 179, 178, 184, 70, 190, 199, 47, 133, 34]"
  "map_option (map (\<lambda>c. of_nat (of_char c) :: u8)) (atob_model ''cEgtqHxwpdRKcBCRPBlPkmkYo8AjtkmzsrhGvscvhSI='') = Some [112, 72, 45, 168, 124, 112, 165, 212, 74, 112, 16, 145, 60, 25, 79, 146, 105, 24, 163, 192, 35, 182, 73, 179, 178, 184, 70, 190, 199, 47, 133, 34]"
  by (simp_all add: b64_eval)

lemma base64_brace:
  "node_base64_decode ''rR9AE6pXpexs0unPcAGlwg=='' = [173, 31, 64, 19, 170, 87, 165, 236, 108, 210, 233, 207, 112, 1, 165, 194]"
  "map_option (map (\<lambda>c. of_nat (of_char c) :: u8)) (atob_model ''rR9AE6pXpexs0unPcAGlwg=='') = Some [173, 31, 64, 19, 170, 87, 165, 236, 108, 210, 233, 207, 112, 1, 165, 194]"
  by (simp_all add: b64_eval)

lemma base64_bad: "node_base64_decode ''!!!!'' = []" "atob_model ''!!!!'' = None"
  by (simp_all add: b64_eval)

section \<open>Decoding the container files\<close>

lemma length_container_head: "length container_head = 46"
  by (simp add: container_head_def ascii_def u32le_def key_block_def)

lemma header_ok: "take 8 (container_head @ rest) = expected"
  by (simp add: container_head_def ascii_def expected_def)

lemma browser_key_data:
  "dumpNcm_key_data browser_runtime (container_head @ rest) 10 = Inr (derived_key, 46)"
proof -
  have r: "readUInt32LE (container_head @ rest) 10 = Inr 32"
    by (simp add: readUInt32LE_def container_head_def ascii_def u32le_def key_block_def)
  have s: "subarray (container_head @ rest) 14 46 = key_block"
    by (simp add: subarray_def container_head_def ascii_def u32le_def key_block_def)
  show ?thesis
    by (simp add: dumpNcm_key_data_def r s browser_decrypt_key derived_key_def ascii_def)
qed

lemma xor_each_twice: "xor_each k (xor_each k xs) = xs"
  by (induction xs) (simp_all add: xor_each_def xor.assoc)

lemma meta_length:
  "readUInt32LE (container_head @ u32le 66 @ rest) 46 = Inr 66"
  "readUInt32LE (container_head @ u32le 26 @ rest) 46 = Inr 26"
  "readUInt32LE (container_head @ u32le 46 @ rest) 46 = Inr 46"
  "4 \<le> length rest \<Longrightarrow> readUInt32LE (container_head @ u32le 1000 @ rest) 46 = Inr 1000"
  by (simp_all add: readUInt32LE_def nth_append length_container_head u32le_def)

lemma meta_slice:
  "subarray (container_head @ u32le k @ m @ rest) 50 (50 + n) = take n (m @ rest)"
  by (simp add: subarray_def length_container_head u32le_def min_def)

lemma meta_text:
  "length b64 + 22 = n \<Longrightarrow>
   drop 22 (xor_each 0x63 (take n (meta_block b64 @ rest))) = ascii b64"
proof -
  assume n: "length b64 + 22 = n"
  have "length (meta_block b64) = n"
    using n by (simp add: meta_block_def xor_each_def ascii_def)
  then have "take n (meta_block b64 @ rest) = meta_block b64"
    by simp
  then have "xor_each 0x63 (take n (meta_block b64 @ rest)) =
             ascii (''163 key(Don't modify):'' @ b64)"
    by (simp add: meta_block_def xor_each_twice)
  then show ?thesis
    by (simp add: ascii_def)
qed

lemma ascii_roundtrip:
  "ascii_decode (ascii ''cEgtqHxwpdRKcBCRPBlPkmkYo8AjtkmzsrhGvscvhSI='') = ''cEgtqHxwpdRKcBCRPBlPkmkYo8AjtkmzsrhGvscvhSI=''"
  "ascii_decode (ascii ''rR9AE6pXpexs0unPcAGlwg=='') = ''rR9AE6pXpexs0unPcAGlwg==''"
  "ascii_decode (ascii ''!!!!'') = ''!!!!''"
  "drop 6 (ascii_decode (ascii ''music:{\"format\":\"FLAC\"}'')) = ''{\"format\":\"FLAC\"}''"
  "drop 6 (ascii_decode (ascii ''music:{'')) = ''{''"
  by (simp_all add: ascii_decode_def ascii_def char_eval)

lemma json_flac: "json_parse ''{\"format\":\"FLAC\"}'' = Some (JObj [(''format'', JStr ''FLAC'')])"
  by (simp add: json_parse_def skip_ws_def json_ws_def)

lemma json_brace: "json_parse ''{'' = None"
  by (simp add: json_parse_def skip_ws_def json_ws_def)

lemma node_meta_stage:
  assumes "readUInt32LE data 46 = Inr n"
      and "drop 22 (xor_each 0x63 (subarray data 50 (50 + n))) = ascii b64"
      and "ascii_decode (ascii b64) = b64"
  shows "dump_meta_data node_runtime data 46 =
           (case openssl_aes_128_ecb_decrypt metaKey (node_base64_decode b64) of
              None \<Rightarrow> Inl CipherError
            | Some p \<Rightarrow>
                (case json_parse (drop 6 (ascii_decode p)) of
                   None \<Rightarrow> Inl SyntaxError
                 | Some j \<Rightarrow> Inr (j, 50 + n)))"
  using assms by (simp add: dump_meta_data_def node_runtime_def split: option.splits)

lemma browser_meta_stage:
  assumes "readUInt32LE data 46 = Inr n"
      and "drop 22 (xor_each 0x63 (subarray data 50 (50 + n))) = ascii b64"
      and "ascii_decode (ascii b64) = b64"
  shows "dumpNcm_meta_data browser_runtime data 46 =
           (case map_option (map (\<lambda>c. of_nat (of_char c))) (atob_model b64) of
              None \<Rightarrow> Inl InvalidCharacterError
            | Some ct \<Rightarrow>
                (case aes128EcbDecrypt browser_runtime ct META_KEY_HEX of
                   Inl e \<Rightarrow> Inl e
                 | Inr p \<Rightarrow>
                     (case json_parse (drop 6 (ascii_decode p)) of
                        None \<Rightarrow> Inl SyntaxError
                      | Some j \<Rightarrow> Inr (j, 50 + n))))"
  using assms
  by (simp add: dumpNcm_meta_data_def browser_runtime_def aes128EcbDecrypt_def
      split: option.splits sum.splits)

lemma meta_flac:
  "dump_meta_data node_runtime container_flac 46 = Inr (JObj [(''format'', JStr ''FLAC'')], 116)"
  "dumpNcm_meta_data browser_runtime container_flac 46 = Inr (JObj [(''format'', JStr ''FLAC'')], 116)"
proof -
  let ?b = "''cEgtqHxwpdRKcBCRPBlPkmkYo8AjtkmzsrhGvscvhSI=''"
  have r: "readUInt32LE container_flac 46 = Inr 66"
    unfolding container_flac_def by (rule meta_length)
  have t: "drop 22 (xor_each 0x63 (subarray container_flac 50 (50 + 66))) = ascii ?b"
    unfolding container_flac_def meta_slice by (rule meta_text) simp
  show "dump_meta_data node_runtime container_flac 46 = Inr (JObj [(''format'', JStr ''FLAC'')], 116)"
    by (simp add: node_meta_stage [OF r t ascii_roundtrip(1)] base64_flac node_decrypt_flac
        ascii_roundtrip json_flac)
  show "dumpNcm_meta_data browser_runtime container_flac 46 = Inr (JObj [(''format'', JStr ''FLAC'')], 116)"
    by (simp add: browser_meta_stage [OF r t ascii_roundtrip(1)] base64_flac browser_decrypt_flac
        ascii_roundtrip json_flac)
qed

lemma meta_bad_json:
  "dump_meta_data node_runtime container_bad_json 46 = Inl SyntaxError"
  "dumpNcm_meta_data browser_runtime container_bad_json 46 = Inl SyntaxError"
proof -
  let ?b = "''rR9AE6pXpexs0unPcAGlwg==''"
  have r: "readUInt32LE container_bad_json 46 = Inr 46"
    unfolding container_bad_json_def by (rule meta_length)
  have t: "drop 22 (xor_each 0x63 (subarray container_bad_json 50 (50 + 46))) = ascii ?b"
    unfolding container_bad_json_def meta_slice by (rule meta_text) simp
  show "dump_meta_data node_runtime container_bad_json 46 = Inl SyntaxError"
    by (simp add: node_meta_stage [OF r t ascii_roundtrip(2)] base64_brace node_decrypt_brace
        ascii_roundtrip json_brace)
  show "dumpNcm_meta_data browser_runtime container_bad_json 46 = Inl SyntaxError"
    by (simp add: browser_meta_stage [OF r t ascii_roundtrip(2)] base64_brace browser_decrypt_brace
        ascii_roundtrip json_brace)
qed

lemma meta_bad_base64:
  "dump_meta_data node_runtime container_bad_base64 46 = Inl CipherError"
  "dumpNcm_meta_data browser_runtime container_bad_base64 46 = Inl InvalidCharacterError"
proof -
  have r: "readUInt32LE container_bad_base64 46 = Inr 26"
    unfolding container_bad_base64_def by (rule meta_length)
  have t: "drop 22 (xor_each 0x63 (subarray container_bad_base64 50 (50 + 26))) = ascii ''!!!!''"
    unfolding container_bad_base64_def meta_slice by (rule meta_text) simp
  show "dump_meta_data node_runtime container_bad_base64 46 = Inl CipherError"
    by (simp add: node_meta_stage [OF r t ascii_roundtrip(3)] base64_bad node_decrypt_bad_length)
  show "dumpNcm_meta_data browser_runtime container_bad_base64 46 = Inl InvalidCharacterError"
    by (simp add: browser_meta_stage [OF r t ascii_roundtrip(3)] base64_bad)
qed

lemma meta_cut:
  "dump_meta_data node_runtime container_meta_cut 46 = Inr (JObj [(''format'', JStr ''FLAC'')], 1050)"
  "dumpNcm_meta_data browser_runtime container_meta_cut 46 = Inr (JObj [(''format'', JStr ''FLAC'')], 1050)"
proof -
  let ?b = "''cEgtqHxwpdRKcBCRPBlPkmkYo8AjtkmzsrhGvscvhSI=''"
  have r: "readUInt32LE container_meta_cut 46 = Inr 1000"
    unfolding container_meta_cut_def by (rule meta_length) (simp add: meta_block_def xor_each_def ascii_def)
  have "subarray container_meta_cut 50 (50 + 1000) = take 1000 (meta_block ?b @ [])"
    unfolding container_meta_cut_def using meta_slice [of 1000 "meta_block ?b" "[]" 1000] by simp
  also have "\<dots> = take 66 (meta_block ?b @ [])"
    by (simp add: meta_block_def xor_each_def ascii_def)
  finally have "subarray container_meta_cut 50 (50 + 1000) = take 66 (meta_block ?b @ [])" .
  moreover have "drop 22 (xor_each 0x63 (take 66 (meta_block ?b @ []))) = ascii ?b"
    by (rule meta_text) simp
  ultimately have t: "drop 22 (xor_each 0x63 (subarray container_meta_cut 50 (50 + 1000))) = ascii ?b"
    by (simp only:)
  show "dump_meta_data node_runtime container_meta_cut 46 = Inr (JObj [(''format'', JStr ''FLAC'')], 1050)"
    by (simp add: node_meta_stage [OF r t ascii_roundtrip(1)] base64_flac node_decrypt_flac
        ascii_roundtrip json_flac)
  show "dumpNcm_meta_data browser_runtime container_meta_cut 46 = Inr (JObj [(''format'', JStr ''FLAC'')], 1050)"
    by (simp add: browser_meta_stage [OF r t ascii_roundtrip(1)] base64_flac browser_decrypt_flac
        ascii_roundtrip json_flac)
qed

lemma container_flac_bytes:
  "container_flac = [67, 84, 69, 78, 70, 68, 65, 77, 1, 112, 32, 0, 0, 0, 44, 206, 213, 235, 105, 234, 251, 20, 85, 13, 69, 191, 97, 221, 23, 29, 135, 17, 193, 143, 183, 4, 211, 109, 106, 161, 8, 87, 21, 39, 129, 17, 66, 0, 0, 0, 82, 85, 80, 67, 8, 6, 26, 75, 39, 12, 13, 68, 23, 67, 14, 12, 7, 10, 5, 26, 74, 89, 0, 38, 4, 23, 18, 43, 27, 20, 19, 7, 49, 40, 0, 33, 32, 49, 51, 33, 15, 51, 8, 14, 8, 58, 12, 91, 34, 9, 23, 8, 14, 25, 16, 17, 11, 36, 21, 16, 0, 21, 11, 48, 42, 94, 0, 0, 0, 0, 0, 0, 0, 0, 0, 2, 0, 0, 0, 255, 216, 1, 2, 3, 4]"
  by (simp add: container_flac_def container_head_def container_tail_def meta_block_def
      key_block_def u32le_def ascii_def xor_each_def)

lemma skip_image_flac: "skip_image container_flac 116 = Inr 131"
  by (simp add: skip_image_def readUInt32LE_def container_flac_bytes)

lemma parse_flac:
  "dump_parse node_runtime container_flac =
     Inr (build_key_box derived_key, JObj [(''format'', JStr ''FLAC'')], 131)"
  "dumpNcm_parse browser_runtime container_flac =
     Inr (build_key_box derived_key, JObj [(''format'', JStr ''FLAC'')], 131)"
proof -
  have h: "take 8 container_flac = expected"
    unfolding container_flac_def by (rule header_ok)
  have k: "dump_key_data node_runtime container_flac 10 = Inr (derived_key, 46)"
    unfolding container_flac_def by (rule node_key_data)
  have k': "dumpNcm_key_data browser_runtime container_flac 10 = Inr (derived_key, 46)"
    unfolding container_flac_def by (rule browser_key_data)
  show "dump_parse node_runtime container_flac =
     Inr (build_key_box derived_key, JObj [(''format'', JStr ''FLAC'')], 131)"
    by (simp add: dump_parse_def dump_header_eq h k meta_flac skip_image_flac)
  show "dumpNcm_parse browser_runtime container_flac =
     Inr (build_key_box derived_key, JObj [(''format'', JStr ''FLAC'')], 131)"
    by (simp add: dumpNcm_parse_def dumpNcm_header_eq h k' meta_flac skip_image_flac)
qed

lemma payload_flac: "drop 131 container_flac = [1, 2, 3, 4]"
  by (simp add: container_flac_bytes)

lemma node_out_path:
  "dump_outPath node_runtime ''/music/track.ncm'' (JStr ''FLAC'') = Inr ''/music/track.FLAC''"
  by (simp add: dump_outPath_def dump_outFileName_def node_runtime_def posix_basename_def
      posix_dirname_def posix_join_def posix_normalize_def strip_trailing_slashes_def
      split_slash_def strip_ncm_def ends_with_ncm_def Let_def)

lemma node_paths:
  "path_basename node_runtime ''/music/track.ncm'' = ''track.ncm''"
  "path_dirname node_runtime ''/music/track.ncm'' = ''/music''"
  "path_join node_runtime ''/music'' ''track.FLAC'' = ''/music/track.FLAC''"
  by (simp_all add: node_runtime_def posix_basename_def posix_dirname_def posix_join_def
      posix_normalize_def strip_trailing_slashes_def split_slash_def Let_def)

lemmas path_eval = posix_resolve_def posix_normalize_def posix_dirname_def split_slash_def Let_def

lemma read_music_dir:
  "fs_readFileSync node_runtime (music_dir ''track.ncm'' bytes) ''/music/track.ncm'' = Some bytes"
  "fs_readFileSync node_runtime (music_dir ''bad.ncm'' bytes) ''/music/bad.ncm'' = Some bytes"
  "fs_readFileSync node_runtime (music_dir ''cut.ncm'' bytes) ''/music/cut.ncm'' = Some bytes"
  "fs_readFileSync node_runtime (music_dir ''song.ncm'' bytes) ''/music/song.ncm'' = Some bytes"
  by (simp_all add: node_runtime_def posix_readFileSync_def music_dir_def path_eval)

lemma open_music_dir:
  "fs_openSync node_runtime (music_dir ''track.ncm'' bytes) ''/music/track.FLAC'' =
     Some \<lparr>directories = {''/'', ''/music''},
           contents = [''/music/track.ncm'' \<mapsto> bytes, ''/music/track.FLAC'' \<mapsto> []]\<rparr>"
  by (simp add: node_runtime_def posix_openSync_def music_dir_def path_eval)

lemma open_music_dir_slash:
  "fs_openSync node_runtime (music_dir ''track.ncm'' bytes) ''/music/track.a/b'' = None"
  "fs_openSync node_runtime (music_dir ''track.ncm'' bytes) ''/music/track.x/'' = None"
  "fs_openSync node_runtime (music_dir ''track.ncm'' bytes) ''/music'' = None"
  by (simp_all add: node_runtime_def posix_openSync_def music_dir_def path_eval)

lemma write_loop_posix:
  assumes "contents files (posix_resolve outPath) = Some old"
  shows "write_loop node_runtime kb data outPath pos files =
           map_option (\<lambda>w. (True, files\<lparr>contents := (contents files)(posix_resolve outPath \<mapsto> w)\<rparr>))
             (write_chunks CHUNK kb data pos old)"
  using assms
proof (induction "length data - pos" arbitrary: pos files old rule: less_induct)
  case less
  let ?file = "posix_resolve outPath"
  show ?case
  proof (cases "pos < length data")
    case True
    let ?chunk = "decode_chunk kb (subarray data pos (min (pos + CHUNK) (length data)))"
    let ?files = "files\<lparr>contents := (contents files)(?file \<mapsto> old @ ?chunk)\<rparr>"
    have w: "fs_writeSync node_runtime files outPath ?chunk = (True, ?files)"
      using less.prems by (simp add: node_runtime_def posix_writeSync_def)
    have l: "write_loop node_runtime kb data outPath pos files =
             write_loop node_runtime kb data outPath (pos + CHUNK) ?files"
      using True w by (subst write_loop.simps) (simp add: Let_def)
    have r: "write_chunks CHUNK kb data pos old =
             write_chunks CHUNK kb data (pos + CHUNK) (old @ ?chunk)"
      using True by (subst write_chunks.simps) (simp add: Let_def)
    have "length data - (pos + CHUNK) < length data - pos"
      using True by (simp add: CHUNK_def)
    from less.hyps [OF this, of ?files "old @ ?chunk"]
    have "write_loop node_runtime kb data outPath (pos + CHUNK) ?files =
           map_option (\<lambda>w. (True, ?files\<lparr>contents := (contents ?files)(?file \<mapsto> w)\<rparr>))
             (write_chunks CHUNK kb data (pos + CHUNK) (old @ ?chunk))"
      by simp
    then show ?thesis
      unfolding l r by simp
  next
    case False
    have "(contents files)(?file \<mapsto> old) = contents files"
      using less.prems by (rule map_upd_triv)
    then show ?thesis
      using False
      by (subst write_loop.simps, subst write_chunks.simps) simp
  qed
qed

lemma write_music_dir:
  "write_loop node_runtime kb data ''/music/track.FLAC'' pos
     \<lparr>directories = {''/'', ''/music''},
      contents = [''/music/track.ncm'' \<mapsto> bytes, ''/music/track.FLAC'' \<mapsto> []]\<rparr> =
   Some (True, \<lparr>directories = {''/'', ''/music''},
                 contents = [''/music/track.ncm'' \<mapsto> bytes,
                             ''/music/track.FLAC'' \<mapsto> decode_audio kb (drop pos data)]\<rparr>)"
proof -
  have c: "write_chunks CHUNK kb data pos [] = Some (decode_audio kb (drop pos data))"
    using write_chunks_eq [of CHUNK kb data pos "[]"] by (simp add: CHUNK_def)
  have f: "posix_resolve ''/music/track.FLAC'' = ''/music/track.FLAC''"
    by (simp add: path_eval)
  show ?thesis
    by (subst write_loop_posix [where old = "[]"]) (simp_all add: c f)
qed

lemma close_music_dir:
  "fs_closeSync node_runtime files ''/music/track.FLAC'' = (True, files)"
  by (simp add: node_runtime_def posix_closeSync_def)

lemma format_flac:
  "get_format (JObj [(''format'', JStr ''FLAC'')] :: int json) = Inr (Some (JStr ''FLAC''))"
  "toLowerCase ''FLAC'' = ''flac''"
  by (simp_all add: get_format_def toLowerCase_def lower_char_def char_eval)

lemma key_cut_facts:
  "take 8 container_key_cut = expected"
  "readUInt32LE container_key_cut 10 = Inr 128"
  "length container_key_cut = 46"
  "drop 14 container_key_cut = key_block"
  by (simp_all add: container_key_cut_def ascii_def expected_def readUInt32LE_def u32le_def
      key_block_def)

lemma key_cut3_facts:
  "take 8 container_key_cut3 = expected"
  "readUInt32LE container_key_cut3 10 = Inr 128"
  "length container_key_cut3 = 17"
  "length (xor_each 0x64 (drop 14 container_key_cut3)) = 3"
  by (simp_all add: container_key_cut3_def ascii_def expected_def readUInt32LE_def u32le_def
      key_block_def xor_each_def)

lemma meta_cut_facts:
  "take 8 container_meta_cut = expected"
  "dump_key_data node_runtime container_meta_cut 10 = Inr (derived_key, 46)"
  "dumpNcm_key_data browser_runtime container_meta_cut 10 = Inr (derived_key, 46)"
  "readUInt32LE container_meta_cut 46 = Inr 1000"
  "length container_meta_cut = 116"
proof -
  show "take 8 container_meta_cut = expected"
    unfolding container_meta_cut_def by (rule header_ok)
  show "dump_key_data node_runtime container_meta_cut 10 = Inr (derived_key, 46)"
    unfolding container_meta_cut_def by (rule node_key_data)
  show "dumpNcm_key_data browser_runtime container_meta_cut 10 = Inr (derived_key, 46)"
    unfolding container_meta_cut_def by (rule browser_key_data)
  show "readUInt32LE container_meta_cut 46 = Inr 1000"
    unfolding container_meta_cut_def
    by (rule meta_length) (simp add: meta_block_def xor_each_def ascii_def)
  show "length container_meta_cut = 116"
    by (simp add: container_meta_cut_def length_container_head u32le_def meta_block_def
        xor_each_def ascii_def)
qed

lemma bad_meta_facts:
  "dump_header (container_head @ rest) = Inr 8"
  "dumpNcm_header (container_head @ rest) = Inr 8"
  using header_ok [of rest] by (simp_all add: dump_header_eq dumpNcm_header_eq)

lemma browser_names:
  "dumpNcm_base (Some ''track.ncm'') = ''track''"
  "dumpNcm_base (Some ''Track.NCM'') = ''Track''"
  "mimeFromFormat ''flac'' = ''audio/flac''"
  by (simp_all add: dumpNcm_base_def strip_ncm_def ends_with_ncm_def mimeFromFormat_def
      toLowerCase_def lower_char_def)



lemma dump_slash_format:
  assumes "dump_parse node_runtime data = Inr (kb, JObj [(''format'', JStr ''a/b'')], offset)"
  shows "dump node_runtime (music_dir ''track.ncm'' data) ''/music/track.ncm'' =
           Some (Inl SystemError, music_dir ''track.ncm'' data)"
proof -
  have g: "get_format (JObj [(''format'', JStr ''a/b'')]) = Inr (Some (JStr ''a/b''))"
    by (simp add: get_format_def)
  have fn: "dump_format node_runtime (JObj [(''format'', JStr ''a/b'')]) = Inr (JStr ''a/b'')"
    using format_string(1) [OF g, of node_runtime] by simp
  have p: "dump_outPath node_runtime ''/music/track.ncm'' (JStr ''a/b'') = Inr ''/music/track.a/b''"
    by (simp add: dump_outPath_def dump_outFileName_def node_runtime_def posix_basename_def
        posix_dirname_def posix_join_def posix_normalize_def strip_trailing_slashes_def
        split_slash_def strip_ncm_def ends_with_ncm_def Let_def)
  show ?thesis
    by (rule dump_open_failure [OF read_music_dir(1) assms fn p open_music_dir_slash(1)])
qed

section \<open>Claims about decoding failures\<close>

text \<open>
  Claim C1, as stated: when the header and the key section are well-formed but the
  metadata block does not decode, decode does not abort; it returns the decrypted audio
  with format \<open>mp3\<close> and an empty metadata record.

  Neither decoder catches the exception. In the container \<open>container_bad_base64\<close> the
  header and the key block are those of a good file and the metadata text is \<open>!!!!\<close>:
  in Node \<open>Buffer.from\<close> skips the four characters and the cipher rejects the empty
  ciphertext; in the browser \<open>atob\<close> throws. Both calls end with the error, and Node
  leaves the file system as it was.
\<close>

theorem corrupt_metadata_counterexample:
  "dump_header container_bad_base64 = Inr 8 \<and>
   dump_key_data node_runtime container_bad_base64 10 = Inr (derived_key, 46) \<and>
   dump node_runtime (music_dir ''bad.ncm'' container_bad_base64) ''/music/bad.ncm'' =
     Some (Inl CipherError, music_dir ''bad.ncm'' container_bad_base64) \<and>
   dumpNcm_header container_bad_base64 = Inr 8 \<and>
   dumpNcm_key_data browser_runtime container_bad_base64 10 = Inr (derived_key, 46) \<and>
   dumpNcm browser_runtime container_bad_base64 (Some ''bad.ncm'') = Inl InvalidCharacterError"
proof -
  have h: "dump_header container_bad_base64 = Inr 8"
    and h': "dumpNcm_header container_bad_base64 = Inr 8"
    unfolding container_bad_base64_def by (rule bad_meta_facts)+
  have k: "dump_key_data node_runtime container_bad_base64 (8 + 2) = Inr (derived_key, 46)"
    unfolding container_bad_base64_def by (simp add: node_key_data)
  have k': "dumpNcm_key_data browser_runtime container_bad_base64 (8 + 2) = Inr (derived_key, 46)"
    unfolding container_bad_base64_def by (simp add: browser_key_data)
  have r: "fs_readFileSync node_runtime (music_dir ''bad.ncm'' container_bad_base64)
             ''/music/bad.ncm'' = Some container_bad_base64"
    by (rule read_music_dir)
  have "dump node_runtime (music_dir ''bad.ncm'' container_bad_base64) ''/music/bad.ncm'' =
     Some (Inl CipherError, music_dir ''bad.ncm'' container_bad_base64)"
    by (rule dump_meta_failure [OF r h k meta_bad_base64(1)])
  moreover have "dumpNcm browser_runtime container_bad_base64 (Some ''bad.ncm'') =
     Inl InvalidCharacterError"
    by (rule dumpNcm_meta_failure [OF h' k' meta_bad_base64(2)])
  ultimately show ?thesis
    using h h' k k' by simp
qed

text \<open>
  Claim C1, amended: for every container whose header and key section are well-formed
  and whose metadata block fails to decode (the cipher rejects it, \<open>atob\<close> rejects the
  base64 text in the browser, or \<open>JSON.parse\<close> fails), decode ends with that failure:
  no audio is returned, and the Node decoder leaves the file system as it was.
\<close>

theorem metadata_failure_aborts:
  "(fs_readFileSync nlib files filePath = Some data \<and> dump_header data = Inr h \<and>
    dump_key_data nlib data (h + 2) = Inr (k, off) \<and> dump_meta_data nlib data off = Inl e
      \<longrightarrow> dump nlib files filePath = Some (Inl e, files)) \<and>
   (dumpNcm_header data = Inr h' \<and>
    dumpNcm_key_data blib data (h' + 2) = Inr (k', off') \<and>
    dumpNcm_meta_data blib data off' = Inl e'
      \<longrightarrow> dumpNcm blib data sourceFileName = Inl e')"
  using dump_meta_failure [of nlib files filePath data h k off e]
        dumpNcm_meta_failure [of data h' blib k' off' e' sourceFileName]
  by blast

theorem metadata_failure_aborts_witness:
  "fs_readFileSync node_runtime (music_dir ''bad.ncm'' container_bad_json) ''/music/bad.ncm'' =
     Some container_bad_json \<and>
   dump_header container_bad_json = Inr 8 \<and>
   dump_key_data node_runtime container_bad_json (8 + 2) = Inr (derived_key, 46) \<and>
   dump_meta_data node_runtime container_bad_json 46 = Inl SyntaxError \<and>
   dump node_runtime (music_dir ''bad.ncm'' container_bad_json) ''/music/bad.ncm'' =
     Some (Inl SyntaxError, music_dir ''bad.ncm'' container_bad_json) \<and>
   dumpNcm_header container_bad_json = Inr 8 \<and>
   dumpNcm_key_data browser_runtime container_bad_json (8 + 2) = Inr (derived_key, 46) \<and>
   dumpNcm_meta_data browser_runtime container_bad_json 46 = Inl SyntaxError \<and>
   dumpNcm browser_runtime container_bad_json None = Inl SyntaxError"
proof -
  have h: "dump_header container_bad_json = Inr 8"
    and h': "dumpNcm_header container_bad_json = Inr 8"
    unfolding container_bad_json_def by (rule bad_meta_facts)+
  have k: "dump_key_data node_runtime container_bad_json (8 + 2) = Inr (derived_key, 46)"
    unfolding container_bad_json_def by (simp add: node_key_data)
  have k': "dumpNcm_key_data browser_runtime container_bad_json (8 + 2) = Inr (derived_key, 46)"
    unfolding container_bad_json_def by (simp add: browser_key_data)
  have r: "fs_readFileSync node_runtime (music_dir ''bad.ncm'' container_bad_json)
             ''/music/bad.ncm'' = Some container_bad_json"
    by (rule read_music_dir)
  show ?thesis
    using metadata_failure_aborts
      [of node_runtime "music_dir ''bad.ncm'' container_bad_json" "''/music/bad.ncm''"
          container_bad_json 8 derived_key 46 SyntaxError 8 browser_runtime derived_key 46
          SyntaxError None]
      r h h' k k' meta_bad_json
    by blast
qed

text \<open>
  Claim C2, as stated: when the key block or the metadata block declares a length that
  exceeds the bytes left in the buffer, decode fails with an OutOfBounds error and never
  reads past the end of the buffer.

  Neither decoder compares the declared length with the buffer. The slice is clamped to
  the bytes that are left and handed to the cipher, and the out-of-range error
  (\<open>RangeError\<close>) can only come from the next 4-byte read. In \<open>container_key_cut3\<close>
  the key block declares 128 bytes and 3 are left: Node's cipher rejects the 3 bytes,
  and the call ends with the cipher's error.
\<close>

theorem oversized_key_block_counterexample:
  "readUInt32LE container_key_cut3 10 = Inr 128 \<and>
   length container_key_cut3 - 14 = 3 \<and>
   dump node_runtime (music_dir ''cut.ncm'' container_key_cut3) ''/music/cut.ncm'' =
     Some (Inl CipherError, music_dir ''cut.ncm'' container_key_cut3)"
proof -
  have c: "decipher_aes_128_ecb node_runtime coreKey (xor_each 0x64 (drop 14 container_key_cut3)) = None"
    using key_cut3_facts(4) by (simp add: node_runtime_def node_decrypt_bad_length)
  have r: "fs_readFileSync node_runtime (music_dir ''cut.ncm'' container_key_cut3)
             ''/music/cut.ncm'' = Some container_key_cut3"
    by (rule read_music_dir)
  have "dump node_runtime (music_dir ''cut.ncm'' container_key_cut3) ''/music/cut.ncm'' =
     Some (Inl (if decipher_aes_128_ecb node_runtime coreKey
                     (xor_each 0x64 (drop 14 container_key_cut3)) = None
                then CipherError else RangeError), music_dir ''cut.ncm'' container_key_cut3)"
    by (rule dump_oversized_key [OF r key_cut3_facts(1) key_cut3_facts(2)])
       (simp add: key_cut3_facts)
  then show ?thesis
    using c by (simp add: key_cut3_facts)
qed

text \<open>
  Claim C2, amended: when the key block or the metadata block declares a length that
  exceeds the bytes left in the buffer, decode fails and produces no output, and it reads
  nothing past the end of the buffer: the block is the clamped slice \<open>data[offset..]\<close>.
  The failure is that of the cipher or of the metadata decoding when the clamped block
  does not decode, and the \<open>RangeError\<close> of the next 4-byte read otherwise.
\<close>

theorem oversized_block_fails:
  "(fs_readFileSync nlib files filePath = Some data \<and> take 8 data = expected \<and>
    readUInt32LE data 10 = Inr keyLength \<and> length data - 14 < keyLength
      \<longrightarrow> dump nlib files filePath =
            Some (Inl (if decipher_aes_128_ecb nlib coreKey (xor_each 0x64 (drop 14 data)) = None
                       then CipherError else RangeError), files)) \<and>
   (fs_readFileSync nlib files filePath = Some data \<and> take 8 data = expected \<and>
    dump_key_data nlib data 10 = Inr (key, off) \<and>
    readUInt32LE data off = Inr metaLength \<and> length data - (off + 4) < metaLength
      \<longrightarrow> dump nlib files filePath =
            Some (Inl (case dump_meta_data nlib data off of Inl e \<Rightarrow> e | Inr v \<Rightarrow> RangeError),
                  files)) \<and>
   (take 8 data = expected \<and>
    readUInt32LE data 10 = Inr keyLength \<and> length data - 14 < keyLength
      \<longrightarrow> dumpNcm blib data sourceFileName =
            Inl (case aes128EcbDecrypt blib (xor_each 0x64 (drop 14 data)) CORE_KEY_HEX of
                   Inl e \<Rightarrow> e | Inr plain \<Rightarrow> RangeError)) \<and>
   (take 8 data = expected \<and>
    dumpNcm_key_data blib data 10 = Inr (key', off') \<and>
    readUInt32LE data off' = Inr metaLength' \<and> length data - (off' + 4) < metaLength'
      \<longrightarrow> dumpNcm blib data sourceFileName =
            Inl (case dumpNcm_meta_data blib data off' of Inl e \<Rightarrow> e | Inr v \<Rightarrow> RangeError))"
  using dump_oversized_key [of nlib files filePath data keyLength]
        dump_oversized_meta [of nlib files filePath data key off metaLength]
        dumpNcm_oversized_key [of data keyLength blib sourceFileName]
        dumpNcm_oversized_meta [of data blib key' off' metaLength' sourceFileName]
  by blast

theorem oversized_block_fails_witness:
  "readUInt32LE container_key_cut 10 = Inr 128 \<and> length container_key_cut - 14 < 128 \<and>
   dump node_runtime (music_dir ''cut.ncm'' container_key_cut) ''/music/cut.ncm'' =
     Some (Inl RangeError, music_dir ''cut.ncm'' container_key_cut) \<and>
   dumpNcm browser_runtime container_key_cut None = Inl RangeError \<and>
   readUInt32LE container_meta_cut 46 = Inr 1000 \<and> length container_meta_cut - (46 + 4) < 1000 \<and>
   dump node_runtime (music_dir ''cut.ncm'' container_meta_cut) ''/music/cut.ncm'' =
     Some (Inl RangeError, music_dir ''cut.ncm'' container_meta_cut) \<and>
   dumpNcm browser_runtime container_meta_cut None = Inl RangeError"
proof -
  let ?fk = "music_dir ''cut.ncm'' container_key_cut"
  let ?fm = "music_dir ''cut.ncm'' container_meta_cut"
  have rk: "fs_readFileSync node_runtime ?fk ''/music/cut.ncm'' = Some container_key_cut"
    by (rule read_music_dir)
  have rm: "fs_readFileSync node_runtime ?fm ''/music/cut.ncm'' = Some container_meta_cut"
    by (rule read_music_dir)
  have lk: "length container_key_cut - 14 < 128"
    and lm: "length container_meta_cut - (46 + 4) < 1000"
    by (simp_all add: key_cut_facts meta_cut_facts)
  have dk: "decipher_aes_128_ecb node_runtime coreKey (xor_each 0x64 (drop 14 container_key_cut)) \<noteq> None"
    by (simp add: key_cut_facts xor_key_block node_runtime_def key_block_plain)
  have bk: "aes128EcbDecrypt browser_runtime (xor_each 0x64 (drop 14 container_key_cut)) CORE_KEY_HEX =
            Inr (ascii ''neteasecloudmusicE7fT49x7dof9OK'')"
    by (simp add: key_cut_facts browser_decrypt_key)
  note key = oversized_block_fails
    [of node_runtime ?fk "''/music/cut.ncm''" container_key_cut 128 _ _ _ browser_runtime None]
  note meta = oversized_block_fails
    [of node_runtime ?fm "''/music/cut.ncm''" container_meta_cut _ derived_key 46 1000
        browser_runtime None derived_key 46 1000]
  have "dump node_runtime ?fk ''/music/cut.ncm'' = Some (Inl RangeError, ?fk)"
    using key rk key_cut_facts lk dk by simp
  moreover have "dumpNcm browser_runtime container_key_cut None = Inl RangeError"
    using key key_cut_facts lk bk by simp
  moreover have "dump node_runtime ?fm ''/music/cut.ncm'' = Some (Inl RangeError, ?fm)"
    using meta rm meta_cut_facts lm meta_cut by simp
  moreover have "dumpNcm browser_runtime container_meta_cut None = Inl RangeError"
    using meta meta_cut_facts lm meta_cut by simp
  ultimately show ?thesis
    using lk lm key_cut_facts(2) meta_cut_facts(4) by blast
qed

section \<open>Claims about the keystream table and the audio loops\<close>



text \<open>
  Claim C4: for every payload (the empty one included) and every 256-entry table, the
  audio decryptor returns an output of the same length with
  \<open>output[n] = payload[n] XOR table[idx(n)]\<close>, where
  \<open>idx(n) = (table[j] + table[(table[j] + j) mod 256]) mod 256\<close> and
  \<open>j = (n + 1) mod 256\<close>. The decryptor is a total function: it has no error result.
  The chunked loop of the script, run with its chunk size \<open>0x8000\<close>, writes the same
  bytes.
\<close>

theorem audio_decryptor_contract:
  assumes "length kb = 256"
  shows "length (decode_audio kb payload) = length payload \<and>
         (\<forall>n < length payload.
            decode_audio kb payload ! n =
              (payload ! n) XOR
              (kb ! ((unat (kb ! ((n + 1) mod 256)) +
                      unat (kb ! ((unat (kb ! ((n + 1) mod 256)) + (n + 1) mod 256) mod 256)))
                     mod 256))) \<and>
         write_chunks CHUNK kb payload 0 [] = Some (decode_audio kb payload)"
proof -
  have "write_chunks CHUNK kb payload 0 [] = Some ([] @ decode_audio kb (drop 0 payload))"
    by (rule write_chunks_eq) (simp_all add: CHUNK_def)
  then show ?thesis
    by (simp add: length_decode_audio nth_decode_audio keystream_def key_index_def and_ff_mod)
qed

theorem audio_decryptor_contract_witness:
  "length init_key_box = 256 \<and>
   length (decode_audio init_key_box [16, 32]) = 2 \<and>
   decode_audio init_key_box [16, 32] ! 0 = 19 \<and>
   decode_audio init_key_box [16, 32] ! 1 = 38 \<and>
   length (decode_audio init_key_box []) = 0"
proof -
  note c = audio_decryptor_contract [OF length_init_key_box, of "[16, 32]"]
  from c have "decode_audio init_key_box [16, 32] ! 0 = 19"
    by (simp add: init_nth)
  moreover from c have "decode_audio init_key_box [16, 32] ! 1 = 38"
    by (simp add: init_nth)
  moreover have "length (decode_audio init_key_box []) = 0"
    using audio_decryptor_contract [OF length_init_key_box, of "[]"] by simp
  ultimately show ?thesis
    using c by (simp add: length_init_key_box)
qed

text \<open>
  Claim C5: for every non-empty key the table built by the key-box loop has 256 entries
  and is a permutation of the bytes 0..255: every byte value occurs exactly once, and the
  sorted table is \<open>[0..255]\<close>.
\<close>

theorem key_box_permutation:
  assumes "keyDecrypted \<noteq> []"
  shows "length (build_key_box keyDecrypted) = 256 \<and>
         (\<forall>v. count (mset (build_key_box keyDecrypted)) v = 1) \<and>
         sort (map unat (build_key_box keyDecrypted)) = [0..<256]"
proof -
  note p = build_key_box_perm [of keyDecrypted]
  have "count (mset (build_key_box keyDecrypted)) v = 1" for v
    using p distinct_count_atmost_1 [of "build_key_box keyDecrypted"] by simp
  with p show ?thesis by simp
qed

theorem key_box_permutation_witness:
  "[1, 2, 3] \<noteq> ([] :: u8 list) \<and>
   length (build_key_box [1, 2, 3]) = 256 \<and>
   count (mset (build_key_box [1, 2, 3])) 7 = 1 \<and>
   sort (map unat (build_key_box [1, 2, 3])) = [0..<256]"
proof -
  have ne: "[1, 2, 3] \<noteq> ([] :: u8 list)" by simp
  show ?thesis
    using ne key_box_permutation [OF ne] by simp
qed

text \<open>
  Claim C6: decoding twice with the same table gives the payload back.
\<close>

theorem decode_audio_self_inverse:
  "decode_audio kb (decode_audio kb payload) = payload"
  by (rule decode_audio_involution)

text \<open>
  Claim C7, as stated: for a derived key of zero length the table builder fails with an
  EmptyKeyError instead of building a table.

  The loop has no such check and nothing in it can throw. With an empty key
  \<open>keyDecrypted[keyOffset]\<close> is \<open>undefined\<close>, the sum is \<open>NaN\<close> and
  \<open>NaN & 0xff\<close> is 0, so every round swaps entry \<open>i\<close> with entry 0, and the loop
  returns the table 255, 0, 1, ..., 254.
\<close>

theorem empty_key_counterexample:
  "build_key_box [] = 255 # map of_nat [0..<255]"
  by (rule build_key_box_empty)

text \<open>
  Claim C7, amended: for a derived key of zero length the table builder does not fail;
  it returns the table 255, 0, 1, ..., 254, which is again a permutation of 0..255.
\<close>

theorem empty_key_table:
  assumes "keyDecrypted = []"
  shows "build_key_box keyDecrypted = 255 # map of_nat [0..<255] \<and>
         length (build_key_box keyDecrypted) = 256 \<and>
         sort (map unat (build_key_box keyDecrypted)) = [0..<256]"
  using assms build_key_box_empty build_key_box_perm [of "[]"] by simp

theorem empty_key_table_witness:
  "drop 17 (replicate 17 (0 :: u8)) = [] \<and>
   build_key_box (drop 17 (replicate 17 0)) = 255 # map of_nat [0..<255] \<and>
   sort (map unat (build_key_box (drop 17 (replicate 17 0)))) = [0..<256]"
proof -
  have e: "drop 17 (replicate 17 (0 :: u8)) = []" by simp
  show ?thesis
    using e empty_key_table [OF e] by blast
qed

section \<open>Claims about the header, the output name and the format\<close>

text \<open>
  Claim C8: for every input buffer whose first 8 bytes are not
  \<open>43 54 45 4E 46 44 41 4D\<close> (a buffer shorter than 8 bytes included), decode fails with
  the invalid-header error before anything else is done: the result does not depend on
  any library primitive, and the Node decoder returns the file system it was given, so no
  output file is created.
\<close>

theorem invalid_header_aborts:
  assumes "take 8 data \<noteq> [0x43, 0x54, 0x45, 0x4E, 0x46, 0x44, 0x41, 0x4D]"
  shows "(fs_readFileSync nlib files filePath = Some data \<longrightarrow>
            dump nlib files filePath = Some (Inl InvalidHeader, files)) \<and>
         dumpNcm blib data sourceFileName = Inl InvalidHeader"
  using assms
  by (simp add: dump_def dumpNcm_def dump_parse_bad_header dumpNcm_parse_bad_header expected_def)

theorem invalid_header_aborts_witness:
  "take 8 (ascii ''ID3'') \<noteq> [0x43, 0x54, 0x45, 0x4E, 0x46, 0x44, 0x41, 0x4D] \<and>
   fs_readFileSync node_runtime (music_dir ''song.ncm'' (ascii ''ID3'')) ''/music/song.ncm'' =
     Some (ascii ''ID3'') \<and>
   dump node_runtime (music_dir ''song.ncm'' (ascii ''ID3'')) ''/music/song.ncm'' =
     Some (Inl InvalidHeader, music_dir ''song.ncm'' (ascii ''ID3'')) \<and>
   dumpNcm browser_runtime (ascii ''ID3'') (Some ''song.ncm'') = Inl InvalidHeader \<and>
   take 8 (ascii ''CTENFDAm'' @ key_block) \<noteq> [0x43, 0x54, 0x45, 0x4E, 0x46, 0x44, 0x41, 0x4D] \<and>
   dumpNcm browser_runtime (ascii ''CTENFDAm'' @ key_block) None = Inl InvalidHeader"
proof -
  have ne: "take 8 (ascii ''ID3'') \<noteq> [0x43, 0x54, 0x45, 0x4E, 0x46, 0x44, 0x41, 0x4D]"
    and ne': "take 8 (ascii ''CTENFDAm'' @ key_block) \<noteq> [0x43, 0x54, 0x45, 0x4E, 0x46, 0x44, 0x41, 0x4D]"
    by (simp_all add: ascii_def)
  have r: "fs_readFileSync node_runtime (music_dir ''song.ncm'' (ascii ''ID3'')) ''/music/song.ncm'' =
     Some (ascii ''ID3'')"
    by (rule read_music_dir)
  show ?thesis
    using ne ne' r
      invalid_header_aborts
        [OF ne, of node_runtime "music_dir ''song.ncm'' (ascii ''ID3'')" "''/music/song.ncm''"
            browser_runtime "Some ''song.ncm''"]
      invalid_header_aborts
        [OF ne', of node_runtime "music_dir ''song.ncm'' (ascii ''ID3'')" "''/music/song.ncm''"
            browser_runtime None]
    by blast
qed




text \<open>
  Claim C10: the browser decoder lower-cases the recovered format before it builds the
  file name, the MIME type and the returned format, and the Node decoder appends the
  metadata's format as it is. So whenever both decoders parse the same bytes to a metadata
  record whose format is a non-empty string that changes under lower-casing, and the Node
  decoder can write its output file, the browser's format differs from the metadata's and
  the two file names differ for equal base names. The good container, whose format is
  \<open>FLAC\<close>, is such an input: Node writes \<open>track.FLAC\<close>, the browser returns
  \<open>track.flac\<close>.
\<close>

theorem format_case_divergence:
  assumes "fs_readFileSync nlib files filePath = Some data"
      and "dump_parse nlib data = Inr (kb, metaJson, offset)"
      and "dumpNcm_parse blib data = Inr (kb', metaJson, offset')"
      and "get_format metaJson = Inr (Some (JStr s))"
      and "s \<noteq> []" and "toLowerCase s \<noteq> s"
      and "outPath = path_join nlib (path_dirname nlib filePath)
                       (strip_ncm (path_basename nlib filePath) @ ''.'' @ s)"
      and "fs_openSync nlib files outPath = Some opened"
      and "write_loop nlib kb data outPath offset opened = Some (True, written)"
      and "fs_closeSync nlib written outPath = (True, files')"
  shows "dump nlib files filePath = Some (Inr outPath, files') \<and>
         dumpNcm blib data sourceFileName =
           Inr \<lparr>blob = \<lparr>blob_bytes = decode_audio kb' (drop offset' data),
                         blob_type = mimeFromFormat (toLowerCase s)\<rparr>,
                filename = dumpNcm_base sourceFileName @ ''.'' @ toLowerCase s,
                format = toLowerCase s, meta = metaJson\<rparr> \<and>
         (strip_ncm (path_basename nlib filePath) = dumpNcm_base sourceFileName \<longrightarrow>
            strip_ncm (path_basename nlib filePath) @ ''.'' @ s \<noteq>
            dumpNcm_base sourceFileName @ ''.'' @ toLowerCase s)"
proof -
  have fn: "dump_format nlib metaJson = Inr (JStr s)"
    using assms(4,5) by (rule format_string(1))
  have fb: "dumpNcm_format blib metaJson = Inr (toLowerCase s)"
    using assms(4,5) by (rule format_string(2))
  have op: "dump_outPath nlib filePath (JStr s) = Inr outPath"
    using assms(7) by (simp add: dump_outPath_string)
  show ?thesis
    using dump_success [OF assms(1,2) fn op assms(8,9,10)]
          dumpNcm_success [OF assms(3) fb, of sourceFileName] assms(6)
    by simp
qed

theorem format_case_divergence_witness:
  "fs_readFileSync node_runtime (music_dir ''track.ncm'' container_flac) ''/music/track.ncm'' =
     Some container_flac \<and>
   dump_parse node_runtime container_flac =
     Inr (build_key_box derived_key, JObj [(''format'', JStr ''FLAC'')], 131) \<and>
   dumpNcm_parse browser_runtime container_flac =
     Inr (build_key_box derived_key, JObj [(''format'', JStr ''FLAC'')], 131) \<and>
   toLowerCase ''FLAC'' \<noteq> ''FLAC'' \<and>
   dump node_runtime (music_dir ''track.ncm'' container_flac) ''/music/track.ncm'' =
     Some (Inr ''/music/track.FLAC'',
           \<lparr>directories = {''/'', ''/music''},
            contents = [''/music/track.ncm'' \<mapsto> container_flac,
                        ''/music/track.FLAC'' \<mapsto> decode_audio (build_key_box derived_key) [1, 2, 3, 4]]\<rparr>) \<and>
   dumpNcm browser_runtime container_flac (Some ''track.ncm'') =
     Inr \<lparr>blob = \<lparr>blob_bytes = decode_audio (build_key_box derived_key) [1, 2, 3, 4],
                   blob_type = ''audio/flac''\<rparr>,
          filename = ''track.flac'', format = ''flac'',
          meta = JObj [(''format'', JStr ''FLAC'')]\<rparr> \<and>
   ''track'' @ ''.'' @ ''FLAC'' \<noteq> ''track'' @ ''.'' @ ''flac''"
proof -
  have r: "fs_readFileSync node_runtime (music_dir ''track.ncm'' container_flac) ''/music/track.ncm'' =
           Some container_flac"
    by (rule read_music_dir)
  have s: "''FLAC'' \<noteq> []" "toLowerCase ''FLAC'' \<noteq> ''FLAC''"
    by (simp_all add: format_flac)
  have p: "''/music/track.FLAC'' =
           path_join node_runtime (path_dirname node_runtime ''/music/track.ncm'')
             (strip_ncm (path_basename node_runtime ''/music/track.ncm'') @ ''.'' @ ''FLAC'')"
    using node_out_path by (simp add: dump_outPath_string)
  have w: "write_loop node_runtime (build_key_box derived_key) container_flac ''/music/track.FLAC'' 131
     \<lparr>directories = {''/'', ''/music''},
      contents = [''/music/track.ncm'' \<mapsto> container_flac, ''/music/track.FLAC'' \<mapsto> []]\<rparr> =
   Some (True, \<lparr>directories = {''/'', ''/music''},
                 contents = [''/music/track.ncm'' \<mapsto> container_flac,
                             ''/music/track.FLAC'' \<mapsto> decode_audio (build_key_box derived_key) [1, 2, 3, 4]]\<rparr>)"
    by (simp add: write_music_dir payload_flac)
  have b: "strip_ncm (path_basename node_runtime ''/music/track.ncm'') = ''track''"
    by (simp add: node_paths strip_ncm_def ends_with_ncm_def)
  show ?thesis
    using format_case_divergence
      [where sourceFileName = "Some ''track.ncm''",
       OF r parse_flac(1) parse_flac(2) format_flac(1) s p open_music_dir w close_music_dir]
      r s parse_flac
    by (simp add: payload_flac format_flac browser_names b)
qed

end
